theory Spec2Isabelle
  imports Main "HOL-Library.Sublist"
begin

section \<open>Strings\<close>

text \<open>
  The program is a TypeScript component (\<^verbatim>\<open>src/components/vcard/VCardForm.tsx\<close>). Its strings
  are modelled as \<^typ>\<open>string\<close>: a \<^typ>\<open>char\<close> stands for one code unit in the range
  U+0000 .. U+00FF (Latin-1), so that \<^const>\<open>length\<close> is the \<^verbatim>\<open>length\<close> of the
  script string. Code units above U+00FF are outside the model.
\<close>

definition isWhiteSpace :: "char \<Rightarrow> bool" where
  \<comment> \<open>The characters \<^verbatim>\<open>String.prototype.trim\<close> removes (white space and line terminators),
      as far as they lie in the modelled range: TAB, LF, VT, FF, CR, SP, NBSP.\<close>
  "isWhiteSpace c =
     (c = CHR 0x09 \<or> c = CHR 0x0A \<or> c = CHR 0x0B \<or> c = CHR 0x0C \<or> c = CHR 0x0D \<or>
      c = CHR 0x20 \<or> c = CHR 0xA0)"

definition trim :: "string \<Rightarrow> string" where
  \<comment> \<open>\<^verbatim>\<open>s.trim()\<close>\<close>
  "trim s = rev (dropWhile isWhiteSpace (rev (dropWhile isWhiteSpace s)))"

definition toLowerChar :: "char \<Rightarrow> char" where
  \<comment> \<open>Lower-casing of one code unit: A..Z and the Latin-1 capitals U+00C0 .. U+00DE
      (without the multiplication sign U+00D7) move up by 32.\<close>
  "toLowerChar c =
     (let n = (of_char c :: nat)
      in if (65 \<le> n \<and> n \<le> 90) \<or> (192 \<le> n \<and> n \<le> 222 \<and> n \<noteq> 215)
         then char_of (n + 32) else c)"

definition toLowerCase :: "string \<Rightarrow> string" where
  \<comment> \<open>\<^verbatim>\<open>s.toLowerCase()\<close>\<close>
  "toLowerCase s = map toLowerChar s"

fun join :: "string \<Rightarrow> string list \<Rightarrow> string" where
  \<comment> \<open>\<^verbatim>\<open>lines.join(sep)\<close>\<close>
  "join sep [] = []"
| "join sep [x] = x"
| "join sep (x # y # ys) = x @ sep @ join sep (y # ys)"

fun splitOn :: "char \<Rightarrow> string \<Rightarrow> string list" where
  \<comment> \<open>\<^verbatim>\<open>s.split(sep)\<close> for a separator of one character\<close>
  "splitOn sep [] = [[]]"
| "splitOn sep (c # cs) =
     (if c = sep then [] # splitOn sep cs
      else (case splitOn sep cs of
              p # ps \<Rightarrow> (c # p) # ps
            | [] \<Rightarrow> [[c]]))"

section \<open>The contact record\<close>

record FormState =
  firstName :: string
  lastName :: string
  jobTitle :: string
  company :: string
  email :: string
  phone :: string
  website :: string
  street :: string
  city :: string
  state :: string
  postalCode :: string
  country :: string

definition initialFormState :: FormState where
  "initialFormState =
     \<lparr>firstName = [], lastName = [], jobTitle = [], company = [], email = [], phone = [],
      website = [], street = [], city = [], state = [], postalCode = [], country = []\<rparr>"

section \<open>Serialisation: \<^verbatim>\<open>buildVCard\<close>\<close>

definition displayName :: "FormState \<Rightarrow> string" where
  \<comment> \<open>\<^verbatim>\<open>`${data.firstName} ${data.lastName}`.trim() || data.firstName || data.lastName\<close>:
      \<^verbatim>\<open>||\<close> yields its first operand that is not the empty string, else the last one.\<close>
  "displayName d =
     (let t = trim (firstName d @ '' '' @ lastName d)
      in if t \<noteq> [] then t else if firstName d \<noteq> [] then firstName d else lastName d)"

definition addressSegments :: "FormState \<Rightarrow> string list" where
  "addressSegments d = [[], [], street d, city d, state d, postalCode d, country d]"

definition buildVCard_lines :: "FormState \<Rightarrow> string list" where
  \<comment> \<open>The array \<^verbatim>\<open>lines\<close> of \<^verbatim>\<open>buildVCard\<close> at the point where it is joined. A test
      \<^verbatim>\<open>if (data.jobTitle)\<close> holds for every string but the empty one.\<close>
  "buildVCard_lines d =
     [''BEGIN:VCARD'',
      ''VERSION:3.0'',
      ''N:'' @ lastName d @ '';'' @ firstName d,
      ''FN:'' @ displayName d]
     @ (if jobTitle d \<noteq> [] then [''TITLE:'' @ jobTitle d] else [])
     @ (if company d \<noteq> [] then [''ORG:'' @ company d] else [])
     @ (if email d \<noteq> [] then [''EMAIL;TYPE=INTERNET:'' @ email d] else [])
     @ (if phone d \<noteq> [] then [''TEL;TYPE=CELL:'' @ phone d] else [])
     @ (if website d \<noteq> [] then [''URL:'' @ website d] else [])
     @ (if list_ex (\<lambda>segment. trim segment \<noteq> []) (addressSegments d)
        then [''ADR;TYPE=WORK:'' @ join '';'' (map trim (addressSegments d))] else [])
     @ [''END:VCARD'']"

definition buildVCard :: "FormState \<Rightarrow> string" where
  "buildVCard d = join [CHR 0x0A] (buildVCard_lines d)"

section \<open>The download name: \<^verbatim>\<open>downloadQrCode\<close>\<close>

definition isAlnumIgnoreCase :: "char \<Rightarrow> bool" where
  \<comment> \<open>The class \<^verbatim>\<open>[a-z0-9]\<close> under the flag \<^verbatim>\<open>i\<close>: the ASCII letters of both cases and
      the digits.\<close>
  "isAlnumIgnoreCase c =
     (let n = (of_char c :: nat)
      in (97 \<le> n \<and> n \<le> 122) \<or> (65 \<le> n \<and> n \<le> 90) \<or> (48 \<le> n \<and> n \<le> 57))"

function replaceRuns :: "(char \<Rightarrow> bool) \<Rightarrow> string \<Rightarrow> string \<Rightarrow> string" where
  \<comment> \<open>\<^verbatim>\<open>s.replace(/[C]+/g, r)\<close> for a character class \<open>C\<close> given as the predicate \<open>p\<close>: each
      match starts at the first character of the class and, \<^verbatim>\<open>+\<close> being greedy, takes the
      whole run.\<close>
  "replaceRuns p r [] = []"
| "replaceRuns p r (c # cs) =
     (if p c then r @ replaceRuns p r (dropWhile p cs) else c # replaceRuns p r cs)"
  by pat_completeness auto
termination
  by (relation "measure (\<lambda>(p, r, s). length s)")
     (auto simp: length_dropWhile_le less_Suc_eq_le)

definition stripHyphens :: "string \<Rightarrow> string" where
  \<comment> \<open>\<^verbatim>\<open>s.replace(/^-+|-+$/g, "")\<close>: the first alternative matches the hyphens at the start,
      the second one matches where only hyphens remain up to the end.\<close>
  "stripHyphens s =
     rev (dropWhile (\<lambda>c. c = CHR ''-'') (rev (dropWhile (\<lambda>c. c = CHR ''-'') s)))"

definition safeName :: "string \<Rightarrow> string \<Rightarrow> string" where
  "safeName fn ln =
     (let combinedName = trim (fn @ '' '' @ ln)
      in stripHyphens
           (replaceRuns (\<lambda>c. \<not> isAlnumIgnoreCase c) ''-'' (toLowerCase (trim combinedName))))"

definition fileName :: "string \<Rightarrow> string \<Rightarrow> string" where
  \<comment> \<open>\<^verbatim>\<open>safeName ? `${safeName}-vcard-qr.png` : "contact-vcard-qr.png"\<close>\<close>
  "fileName fn ln =
     (if safeName fn ln \<noteq> [] then safeName fn ln @ ''-vcard-qr.png''
      else ''contact-vcard-qr.png'')"

section \<open>Validation: the schema \<^verbatim>\<open>formSchema\<close>\<close>

text \<open>
  The schema is written with the validation library zod (its version 4, which has \<^verbatim>\<open>z.email\<close>
  and \<^verbatim>\<open>z.url\<close>). The library is not part of the repository; the part of it the schema uses is
  modelled below. A parse runs on a payload (a value and the issues found so far), a failed
  check appends an issue, and an issue carries the flag \<^verbatim>\<open>continue\<close> that says whether later
  checks still run. A union yields the result of its first option without issues; when every
  option fails and exactly one of them is not aborted, it yields the issues of that option (so
  the recent releases of the library; for the email and the website this is the issue of the
  format check, with the message key of the schema). The email check matches the value as it
  is against the library's pattern. The URL check trims the value, hands the trimmed value to
  the URL constructor of the platform (\<^verbatim>\<open>new URL\<close>) and, when the constructor accepts it,
  leaves the trimmed value in the payload. The pattern for email addresses and the URL
  constructor are parameters of the model.
\<close>

datatype field =
  FirstName | LastName | JobTitle | Company | Email | Phone | Website
  | Street | City | State | PostalCode | Country

definition fieldKeys :: "field list" where
  \<comment> \<open>The keys of \<^verbatim>\<open>formSchema.shape\<close>, in the order they are written.\<close>
  "fieldKeys =
     [FirstName, LastName, JobTitle, Company, Email, Phone, Website,
      Street, City, State, PostalCode, Country]"

fun getField :: "field \<Rightarrow> FormState \<Rightarrow> string" where
  \<comment> \<open>\<^verbatim>\<open>data[field]\<close>\<close>
  "getField FirstName d = firstName d"
| "getField LastName d = lastName d"
| "getField JobTitle d = jobTitle d"
| "getField Company d = company d"
| "getField Email d = email d"
| "getField Phone d = phone d"
| "getField Website d = website d"
| "getField Street d = street d"
| "getField City d = city d"
| "getField State d = state d"
| "getField PostalCode d = postalCode d"
| "getField Country d = country d"

fun setField :: "field \<Rightarrow> string \<Rightarrow> FormState \<Rightarrow> FormState" where
  \<comment> \<open>\<^verbatim>\<open>{ ...previous, [field]: value }\<close>\<close>
  "setField FirstName v d = d\<lparr>firstName := v\<rparr>"
| "setField LastName v d = d\<lparr>lastName := v\<rparr>"
| "setField JobTitle v d = d\<lparr>jobTitle := v\<rparr>"
| "setField Company v d = d\<lparr>company := v\<rparr>"
| "setField Email v d = d\<lparr>email := v\<rparr>"
| "setField Phone v d = d\<lparr>phone := v\<rparr>"
| "setField Website v d = d\<lparr>website := v\<rparr>"
| "setField Street v d = d\<lparr>street := v\<rparr>"
| "setField City v d = d\<lparr>city := v\<rparr>"
| "setField State v d = d\<lparr>state := v\<rparr>"
| "setField PostalCode v d = d\<lparr>postalCode := v\<rparr>"
| "setField Country v d = d\<lparr>country := v\<rparr>"

record zodlib =
  emailPattern :: "string \<Rightarrow> bool"
    \<comment> \<open>whether the library's pattern for email addresses matches the string\<close>
  newURL :: "string \<Rightarrow> bool"
    \<comment> \<open>whether the URL constructor of the platform accepts the string as an absolute URL
        (\<^verbatim>\<open>new URL(s)\<close> returns) or not (it throws)\<close>

record issue =
  message :: string
  cont :: bool  \<comment> \<open>the flag \<^verbatim>\<open>continue\<close> of the issue\<close>

record payload =
  pvalue :: string
  issues :: "issue list"

datatype check =
  Trim  \<comment> \<open>\<^verbatim>\<open>.trim()\<close>\<close>
  | MinLength nat string  \<comment> \<open>\<^verbatim>\<open>.min(n, message)\<close>\<close>

datatype schema =
  ZString "check list"  \<comment> \<open>\<^verbatim>\<open>z.string()\<close> with its checks\<close>
  | ZEmail string  \<comment> \<open>\<^verbatim>\<open>z.email(message)\<close>\<close>
  | ZUrl string  \<comment> \<open>\<^verbatim>\<open>z.url(message)\<close>\<close>
  | ZLiteral string  \<comment> \<open>\<^verbatim>\<open>z.literal(s)\<close>\<close>
  | ZUnion schema schema  \<comment> \<open>\<^verbatim>\<open>a.or(b)\<close>\<close>
  | ZNonOptional schema  \<comment> \<open>what \<^verbatim>\<open>.required()\<close> makes of a field of the object\<close>

definition aborted :: "payload \<Rightarrow> bool" where
  \<comment> \<open>Some issue does not allow to continue.\<close>
  "aborted p = list_ex (\<lambda>i. \<not> cont i) (issues p)"

fun runCheck :: "check \<Rightarrow> payload \<Rightarrow> payload" where
  "runCheck Trim p = p\<lparr>pvalue := trim (pvalue p)\<rparr>"
| "runCheck (MinLength n msg) p =
     (if length (pvalue p) < n
      then p\<lparr>issues := issues p @ [\<lparr>message = msg, cont = True\<rparr>]\<rparr> else p)"

fun runChecks :: "check list \<Rightarrow> payload \<Rightarrow> payload" where
  \<comment> \<open>The checks run in the order they were added; once the payload is aborted the
      remaining ones are skipped.\<close>
  "runChecks [] p = p"
| "runChecks (ch # chs) p = runChecks chs (if aborted p then p else runCheck ch p)"

definition handleUnionResults :: "payload list \<Rightarrow> string \<Rightarrow> payload" where
  \<comment> \<open>The result of a union: the first option without issues; else, when exactly one option
      is not aborted, that option's result with its issues; else one issue of the union.\<close>
  "handleUnionResults results v =
     (case find (\<lambda>r. issues r = []) results of
        Some r \<Rightarrow> r
      | None \<Rightarrow>
          (case filter (\<lambda>r. \<not> aborted r) results of
             [r] \<Rightarrow> r
           | _ \<Rightarrow> \<lparr>pvalue = v, issues = [\<lparr>message = ''Invalid input'', cont = False\<rparr>]\<rparr>))"

fun run :: "zodlib \<Rightarrow> schema \<Rightarrow> string \<Rightarrow> payload" where
  "run G (ZString chs) v = runChecks chs \<lparr>pvalue = v, issues = []\<rparr>"
| "run G (ZEmail msg) v =
     (if emailPattern G v then \<lparr>pvalue = v, issues = []\<rparr>
      else \<lparr>pvalue = v, issues = [\<lparr>message = msg, cont = True\<rparr>]\<rparr>)"
| "run G (ZUrl msg) v =
     (let trimmed = trim v
      in if newURL G trimmed then \<lparr>pvalue = trimmed, issues = []\<rparr>
         else \<lparr>pvalue = v, issues = [\<lparr>message = msg, cont = True\<rparr>]\<rparr>)"
| "run G (ZLiteral l) v =
     (if v = l then \<lparr>pvalue = v, issues = []\<rparr>
      else \<lparr>pvalue = v,
             issues = [\<lparr>message = ''Invalid input: expected '' @ [CHR 0x22] @ l @ [CHR 0x22],
                        cont = False\<rparr>]\<rparr>)"
| "run G (ZUnion a b) v = handleUnionResults [run G a v, run G b v] v"
| "run G (ZNonOptional a) v = run G a v"

fun objectShape :: "field \<Rightarrow> schema" where
  \<comment> \<open>The argument of \<^verbatim>\<open>z.object\<close>.\<close>
  "objectShape FirstName = ZString [Trim, MinLength 1 ''validation.firstNameRequired'']"
| "objectShape LastName = ZString [Trim]"
| "objectShape JobTitle = ZString [Trim]"
| "objectShape Company = ZString [Trim]"
| "objectShape Email = ZUnion (ZEmail ''validation.emailInvalid'') (ZLiteral [])"
| "objectShape Phone = ZString [Trim, MinLength 1 ''validation.phoneRequired'']"
| "objectShape Website = ZUnion (ZUrl ''validation.websiteInvalid'') (ZLiteral [])"
| "objectShape Street = ZString [Trim]"
| "objectShape City = ZString [Trim]"
| "objectShape State = ZString [Trim]"
| "objectShape PostalCode = ZString [Trim]"
| "objectShape Country = ZString [Trim]"

definition shape :: "field \<Rightarrow> schema" where
  \<comment> \<open>\<^verbatim>\<open>formSchema.shape[field]\<close>, after \<^verbatim>\<open>.required()\<close>\<close>
  "shape f = ZNonOptional (objectShape f)"

definition parsedData :: "zodlib \<Rightarrow> FormState \<Rightarrow> FormState" where
  \<comment> \<open>The output object of the parse of a record: under each key the value its field schema
      leaves in the payload.\<close>
  "parsedData G d =
     \<lparr>firstName = pvalue (run G (shape FirstName) (firstName d)),
      lastName = pvalue (run G (shape LastName) (lastName d)),
      jobTitle = pvalue (run G (shape JobTitle) (jobTitle d)),
      company = pvalue (run G (shape Company) (company d)),
      email = pvalue (run G (shape Email) (email d)),
      phone = pvalue (run G (shape Phone) (phone d)),
      website = pvalue (run G (shape Website) (website d)),
      street = pvalue (run G (shape Street) (street d)),
      city = pvalue (run G (shape City) (city d)),
      state = pvalue (run G (shape State) (state d)),
      postalCode = pvalue (run G (shape PostalCode) (postalCode d)),
      country = pvalue (run G (shape Country) (country d))\<rparr>"

definition objectIssues :: "zodlib \<Rightarrow> FormState \<Rightarrow> (field \<times> string) list" where
  \<comment> \<open>The issues of the parse of a record: those of every key, in the order of the keys, each
      with its path (the key) and its message.\<close>
  "objectIssues G d =
     concat (map (\<lambda>k. map (\<lambda>i. (k, message i)) (issues (run G (shape k) (getField k d))))
               fieldKeys)"

definition safeParse :: "zodlib \<Rightarrow> FormState \<Rightarrow> (field \<times> string) list + FormState" where
  \<comment> \<open>\<^verbatim>\<open>formSchema.safeParse(formData)\<close>: \<open>Inr\<close> is \<^verbatim>\<open>{ success: true, data }\<close>, \<open>Inl\<close> carries
      the issues of \<^verbatim>\<open>{ success: false, error }\<close>.\<close>
  "safeParse G d =
     (if objectIssues G d = [] then Inr (parsedData G d) else Inl (objectIssues G d))"

fun addFieldError ::
  "(field \<times> string list) list \<Rightarrow> field \<times> string \<Rightarrow> (field \<times> string list) list" where
  \<comment> \<open>One step of \<^verbatim>\<open>flatten()\<close>: the message is appended to the list under its key; a new key
      goes to the end.\<close>
  "addFieldError [] (k, m) = [(k, [m])]"
| "addFieldError ((k', ms) # rest) (k, m) =
     (if k' = k then (k', ms @ [m]) # rest else (k', ms) # addFieldError rest (k, m))"

definition fieldErrors :: "(field \<times> string) list \<Rightarrow> (field \<times> string list) list" where
  \<comment> \<open>\<^verbatim>\<open>result.error.flatten().fieldErrors\<close>, as the list of its entries\<close>
  "fieldErrors iss = foldl addFieldError [] iss"

section \<open>The component \<^verbatim>\<open>VCardForm\<close>\<close>

type_synonym FormErrors = "field \<rightharpoonup> string"

datatype QrErrorKey = generationFailed

fun qrErrorKey :: "QrErrorKey \<Rightarrow> string" where
  "qrErrorKey generationFailed = ''generationFailed''"

record VCardForm =
  formData :: FormState
  errors :: FormErrors
  qrCodeData :: "string option"
  isGenerating :: bool
  qrError :: "QrErrorKey option"

definition initialVCardForm :: VCardForm where
  \<comment> \<open>The initial values of the five \<^verbatim>\<open>useState\<close> cells.\<close>
  "initialVCardForm =
     \<lparr>formData = initialFormState, errors = Map.empty, qrCodeData = None,
      isGenerating = False, qrError = None\<rparr>"

definition helperMessage :: "(string \<Rightarrow> string) \<Rightarrow> string \<Rightarrow> VCardForm \<Rightarrow> string" where
  \<comment> \<open>\<open>translate\<close> is the property of that name, \<open>helper\<close> is
      \<^verbatim>\<open>translation.messages.helper\<close>.\<close>
  "helperMessage translate helper st =
     (case qrError st of
        Some k \<Rightarrow> translate (''messages.errors.'' @ qrErrorKey k)
      | None \<Rightarrow> helper)"

definition setFieldError :: "field \<Rightarrow> string option \<Rightarrow> FormErrors \<Rightarrow> FormErrors" where
  \<comment> \<open>The updater handed to \<^verbatim>\<open>setErrors\<close>; the test \<^verbatim>\<open>if (message)\<close> fails for a missing
      message and for the empty string.\<close>
  "setFieldError f msg previous =
     (if msg \<noteq> None \<and> msg \<noteq> Some []
      then (if previous f = msg then previous else previous(f := msg))
      else if f \<notin> dom previous then previous
      else previous(f := None))"

definition validateField :: "zodlib \<Rightarrow> field \<Rightarrow> string \<Rightarrow> VCardForm \<Rightarrow> bool \<times> VCardForm" where
  "validateField G f v st =
     (let result = run G (shape f) v
      in if issues result \<noteq> []
         then (False,
               st\<lparr>errors :=
                    setFieldError f
                      (Some (case issues result of
                               i # _ \<Rightarrow> message i
                             | [] \<Rightarrow> ''validation.generic''))
                      (errors st)\<rparr>)
         else (True, st\<lparr>errors := setFieldError f None (errors st)\<rparr>))"

definition handleChange :: "field \<Rightarrow> string \<Rightarrow> VCardForm \<Rightarrow> VCardForm" where
  "handleChange f v st = st\<lparr>formData := setField f v (formData st)\<rparr>"

definition handleBlur :: "zodlib \<Rightarrow> field \<Rightarrow> string \<Rightarrow> VCardForm \<Rightarrow> VCardForm" where
  "handleBlur G f v st = snd (validateField G f v st)"

definition validationErrors :: "(field \<times> string) list \<Rightarrow> FormErrors" where
  \<comment> \<open>The \<^verbatim>\<open>reduce\<close> over the entries of \<^verbatim>\<open>fieldErrors\<close>: the first message of every key that
      has one.\<close>
  "validationErrors iss =
     foldl (\<lambda>accumulator (key, messages).
              case messages of
                m # _ \<Rightarrow> accumulator(key \<mapsto> m)
              | [] \<Rightarrow> accumulator)
       Map.empty (fieldErrors iss)"

record EncodeRequest =
  vcardPayload :: string
  errorCorrectionLevel :: string
  margin :: nat
  scale :: nat

text \<open>
  \<^verbatim>\<open>handleSubmit\<close> is asynchronous: it runs up to the \<^verbatim>\<open>await\<close> of the encoder's promise and
  is resumed when the promise settles. \<open>handleSubmit\<close> below is the first part; it returns the
  new state and the call of \<^verbatim>\<open>QRCode.toDataURL\<close> it has made, if any. The two resumptions are
  \<open>handleSubmit_fulfilled\<close> (the rest of the \<^verbatim>\<open>try\<close> block, then \<^verbatim>\<open>finally\<close>) and
  \<open>handleSubmit_rejected\<close> (\<^verbatim>\<open>catch\<close>, then \<^verbatim>\<open>finally\<close>).
\<close>

definition handleSubmit :: "zodlib \<Rightarrow> VCardForm \<Rightarrow> VCardForm \<times> EncodeRequest option" where
  "handleSubmit G st =
     (case safeParse G (formData st) of
        Inl iss \<Rightarrow> (st\<lparr>errors := validationErrors iss\<rparr>, None)
      | Inr data \<Rightarrow>
          (st\<lparr>errors := Map.empty, qrError := None, isGenerating := True\<rparr>,
           Some \<lparr>vcardPayload = buildVCard data, errorCorrectionLevel = ''M'', margin = 1, scale = 6\<rparr>))"

definition handleSubmit_fulfilled :: "string \<Rightarrow> VCardForm \<Rightarrow> VCardForm" where
  "handleSubmit_fulfilled dataUrl st = st\<lparr>qrCodeData := Some dataUrl, isGenerating := False\<rparr>"

definition handleSubmit_rejected :: "VCardForm \<Rightarrow> VCardForm" where
  "handleSubmit_rejected st = st\<lparr>qrError := Some generationFailed, isGenerating := False\<rparr>"

definition resetFormData :: "VCardForm \<Rightarrow> VCardForm" where
  "resetFormData st =
     st\<lparr>formData := initialFormState, errors := Map.empty, qrCodeData := None, qrError := None\<rparr>"

definition closeQrModal :: "VCardForm \<Rightarrow> VCardForm" where
  "closeQrModal st = st\<lparr>qrCodeData := None\<rparr>"

definition downloadQrCode :: "VCardForm \<Rightarrow> (string \<times> string) option" where
  \<comment> \<open>The link that is clicked, as the pair of its \<^verbatim>\<open>href\<close> and its \<^verbatim>\<open>download\<close> name; \<open>None\<close>
      is the early return. The test \<^verbatim>\<open>!qrCodeData\<close> holds for \<^verbatim>\<open>null\<close> and for the empty
      string.\<close>
  "downloadQrCode st =
     (case qrCodeData st of
        None \<Rightarrow> None
      | Some href \<Rightarrow>
          if href = [] then None
          else Some (href, fileName (firstName (formData st)) (lastName (formData st))))"

section \<open>The component with its encode requests\<close>

text \<open>
  A state of the running component: the state of \<^verbatim>\<open>VCardForm\<close> and the encode requests that
  have been issued and have not settled yet. The events are those of the rendered form. The
  form's submit button is rendered with \<^verbatim>\<open>disabled={isGenerating}\<close>, and a form whose submit
  button is disabled is not submitted, so the event \<open>Submit\<close> reaches \<^verbatim>\<open>handleSubmit\<close> only
  when the flag is not set. The dialog with its close and download buttons is rendered only
  when \<^verbatim>\<open>qrCodeData\<close> is neither \<^verbatim>\<open>null\<close> nor empty. \<open>Settle i out\<close> is the \<open>i\<close>-th pending
  request settling with the outcome \<open>out\<close>.
\<close>

record System =
  form :: VCardForm
  inflight :: "EncodeRequest list"

datatype outcome = Fulfilled string | Rejected

datatype event =
  Change field string
  | Blur field string
  | Submit
  | Reset
  | CloseModal
  | Download
  | Settle nat outcome

definition initialSystem :: System where
  "initialSystem = \<lparr>form = initialVCardForm, inflight = []\<rparr>"

definition modalShown :: "VCardForm \<Rightarrow> bool" where
  "modalShown st = (qrCodeData st \<noteq> None \<and> qrCodeData st \<noteq> Some [])"

fun fire :: "zodlib \<Rightarrow> event \<Rightarrow> System \<Rightarrow> System" where
  "fire G (Change f v) sys = sys\<lparr>form := handleChange f v (form sys)\<rparr>"
| "fire G (Blur f v) sys = sys\<lparr>form := handleBlur G f v (form sys)\<rparr>"
| "fire G Submit sys =
     (if isGenerating (form sys) then sys
      else (case handleSubmit G (form sys) of
              (st, None) \<Rightarrow> sys\<lparr>form := st\<rparr>
            | (st, Some req) \<Rightarrow> \<lparr>form = st, inflight = inflight sys @ [req]\<rparr>))"
| "fire G Reset sys = sys\<lparr>form := resetFormData (form sys)\<rparr>"
| "fire G CloseModal sys =
     (if modalShown (form sys) then sys\<lparr>form := closeQrModal (form sys)\<rparr> else sys)"
| "fire G Download sys = sys"
| "fire G (Settle i out) sys =
     (if i < length (inflight sys)
      then \<lparr>form = (case out of
                      Fulfilled dataUrl \<Rightarrow> handleSubmit_fulfilled dataUrl (form sys)
                    | Rejected \<Rightarrow> handleSubmit_rejected (form sys)),
            inflight = take i (inflight sys) @ drop (Suc i) (inflight sys)\<rparr>
      else sys)"

definition runEvents :: "zodlib \<Rightarrow> event list \<Rightarrow> System" where
  \<comment> \<open>The state after a sequence of events, from the start.\<close>
  "runEvents G evs = foldl (\<lambda>sys e. fire G e sys) initialSystem evs"

section \<open>The download name as the specification words it\<close>

definition isAlnumLower :: "char \<Rightarrow> bool" where
  \<comment> \<open>The class \<^verbatim>\<open>[a-z0-9]\<close>, read literally.\<close>
  "isAlnumLower c =
     (let n = (of_char c :: nat) in (97 \<le> n \<and> n \<le> 122) \<or> (48 \<le> n \<and> n \<le> 57))"

fun hyphenateRuns :: "bool \<Rightarrow> string \<Rightarrow> string" where
  \<comment> \<open>Every maximal run of characters outside \<^verbatim>\<open>[a-z0-9]\<close> becomes one hyphen; the flag says
      that the previous character was outside the class, so that its run has its hyphen
      already.\<close>
  "hyphenateRuns inRun [] = []"
| "hyphenateRuns inRun (c # cs) =
     (if isAlnumLower c then c # hyphenateRuns False cs
      else if inRun then hyphenateRuns True cs
      else CHR ''-'' # hyphenateRuns True cs)"

fun stripLeadingHyphens :: "string \<Rightarrow> string" where
  \<comment> \<open>Strip the leading hyphens.\<close>
  "stripLeadingHyphens [] = []"
| "stripLeadingHyphens (c # cs) = (if c = CHR ''-'' then stripLeadingHyphens cs else c # cs)"

fun stripTrailingHyphens :: "string \<Rightarrow> string" where
  \<comment> \<open>Strip the trailing hyphens: a hyphen goes when nothing but hyphens follows it.\<close>
  "stripTrailingHyphens [] = []"
| "stripTrailingHyphens (c # cs) =
     (if c = CHR ''-'' \<and> stripTrailingHyphens cs = [] then [] else c # stripTrailingHyphens cs)"

fun alnumWords :: "string \<Rightarrow> string list" where
  \<comment> \<open>The maximal runs of characters of \<^verbatim>\<open>[a-z0-9]\<close> in a string, in their order: a
      character of the class is put in front of the run that the next character starts, or
      is a run of its own when the next character is outside the class.\<close>
  "alnumWords [] = []"
| "alnumWords [c] = (if isAlnumLower c then [[c]] else [])"
| "alnumWords (c # d # cs) =
     (if \<not> isAlnumLower c then alnumWords (d # cs)
      else if isAlnumLower d
        then (case alnumWords (d # cs) of w # ws \<Rightarrow> (c # w) # ws | [] \<Rightarrow> [[c]])
      else [c] # alnumWords (d # cs))"

definition nameFor :: "string \<Rightarrow> string \<Rightarrow> string" where
  \<comment> \<open>Combine "first last", trim, lower-case, replace every run of characters outside
      \<^verbatim>\<open>[a-z0-9]\<close> with a single hyphen, strip leading and trailing hyphens; if the result is
      empty, use the default base name; append the suffix and the extension.\<close>
  "nameFor fn ln =
     (let slug =
            stripTrailingHyphens
              (stripLeadingHyphens (hyphenateRuns False (toLowerCase (trim (fn @ '' '' @ ln)))));
          base = (if slug = [] then ''contact'' else slug)
      in base @ ''-vcard-qr'' @ ''.png'')"

section \<open>An instance of the library for concrete records\<close>

text \<open>
  The statements about the program below hold for every library \<open>G\<close>. To evaluate the program
  at concrete records an instance is needed. Its email pattern is the pattern of the
  validation library:
  \<^verbatim>\<open>/^(?!\.)(?!.*\.\.)([A-Za-z0-9_'+\-\.]*)[A-Za-z0-9_+-]@([A-Za-z0-9][A-Za-z0-9\-]*\.)+[A-Za-z]{2,}$/\<close>.
  Its URL constructor is a stand-in that accepts the one address \<^verbatim>\<open>https://example.com\<close>; it
  is applied only to that address and to the empty string, where the constructor of the
  platform does the same (it accepts the address and throws on the empty string).
\<close>

definition isAsciiLetter :: "char \<Rightarrow> bool" where
  "isAsciiLetter c =
     (let n = (of_char c :: nat) in (97 \<le> n \<and> n \<le> 122) \<or> (65 \<le> n \<and> n \<le> 90))"

definition isAsciiDigit :: "char \<Rightarrow> bool" where
  "isAsciiDigit c = (let n = (of_char c :: nat) in 48 \<le> n \<and> n \<le> 57)"

fun hasDotDot :: "string \<Rightarrow> bool" where
  "hasDotDot (a # b # cs) = ((a = CHR ''.'' \<and> b = CHR ''.'') \<or> hasDotDot (b # cs))"
| "hasDotDot _ = False"

definition emailLocalPart :: "string \<Rightarrow> bool" where
  \<comment> \<open>\<^verbatim>\<open>([A-Za-z0-9_'+\-\.]*)[A-Za-z0-9_+-]\<close>\<close>
  "emailLocalPart l =
     (l \<noteq> [] \<and>
      list_all (\<lambda>c. isAsciiLetter c \<or> isAsciiDigit c \<or> c \<in> set ''_+-.'' \<or> c = CHR 0x27)
        (butlast l) \<and>
      (isAsciiLetter (last l) \<or> isAsciiDigit (last l) \<or> last l \<in> set ''_+-''))"

definition emailDomainLabel :: "string \<Rightarrow> bool" where
  \<comment> \<open>\<^verbatim>\<open>[A-Za-z0-9][A-Za-z0-9\-]*\<close>\<close>
  "emailDomainLabel l =
     (case l of
        [] \<Rightarrow> False
      | c # cs \<Rightarrow>
          (isAsciiLetter c \<or> isAsciiDigit c) \<and>
          list_all (\<lambda>x. isAsciiLetter x \<or> isAsciiDigit x \<or> x = CHR ''-'') cs)"

definition emailDomain :: "string \<Rightarrow> bool" where
  \<comment> \<open>\<^verbatim>\<open>([A-Za-z0-9][A-Za-z0-9\-]*\.)+[A-Za-z]{2,}\<close>\<close>
  "emailDomain d =
     (let parts = splitOn CHR ''.'' d
      in 2 \<le> length parts \<and> list_all emailDomainLabel (butlast parts) \<and>
         2 \<le> length (last parts) \<and> list_all isAsciiLetter (last parts))"

definition zodEmailPattern :: "string \<Rightarrow> bool" where
  "zodEmailPattern s =
     (case splitOn CHR ''@'' s of
        [l, d] \<Rightarrow>
          take 1 s \<noteq> ''.'' \<and> \<not> hasDotDot s \<and> emailLocalPart l \<and> emailDomain d
      | _ \<Rightarrow> False)"

definition exampleNewURL :: "string \<Rightarrow> bool" where
  "exampleNewURL s = (s = ''https://example.com'')"

definition exampleLib :: zodlib where
  "exampleLib = \<lparr>emailPattern = zodEmailPattern, newURL = exampleNewURL\<rparr>"

section \<open>The rule table of the specification\<close>

definition fieldRule :: "zodlib \<Rightarrow> field \<Rightarrow> string \<Rightarrow> string option" where
  \<comment> \<open>The rules of the specification's field validator, one per field: \<open>None\<close> when the value
      passes, else the message key. First name and phone: not empty after trimming; email:
      the empty string or a match of the email grammar; website: the empty string or a match
      of the grammar of absolute URLs, which is matched against the trimmed value; every
      other field: always valid.\<close>
  "fieldRule G f v =
     (if f = FirstName then (if trim v = [] then Some ''validation.firstNameRequired'' else None)
      else if f = Phone then (if trim v = [] then Some ''validation.phoneRequired'' else None)
      else if f = Email
        then (if v = [] \<or> emailPattern G v then None else Some ''validation.emailInvalid'')
      else if f = Website
        then (if v = [] \<or> newURL G (trim v) then None else Some ''validation.websiteInvalid'')
      else None)"

section \<open>Records and states of the examples\<close>

definition anaPop :: FormState where
  \<comment> \<open>The record of the specification's example: three fields given, the others empty.\<close>
  "anaPop =
     initialFormState\<lparr>firstName := ''Ana'', lastName := ''Pop'', phone := ''+40712345678''\<rparr>"

definition noName :: FormState where
  \<comment> \<open>The record of the specification's example with empty names and a phone number.\<close>
  "noName = initialFormState\<lparr>phone := ''+40712345678''\<rparr>"

definition formWith :: "FormState \<Rightarrow> VCardForm" where
  \<comment> \<open>The component right after the record has been typed in.\<close>
  "formWith d = initialVCardForm\<lparr>formData := d\<rparr>"

definition typeAnaPop :: "event list" where
  \<comment> \<open>The events that type the record \<open>anaPop\<close> into the empty form.\<close>
  "typeAnaPop =
     [Change FirstName ''Ana'', Change LastName ''Pop'', Change Phone ''+40712345678'']"

definition generating :: System where
  \<comment> \<open>The record \<open>anaPop\<close> has been submitted and its encode request has not settled.\<close>
  "generating = runEvents exampleLib (typeAnaPop @ [Submit])"

definition sampleArtifact :: string where
  "sampleArtifact = ''data:image/png;base64,iVBORw0KGgo=''"

section \<open>Properties of the string functions\<close>

lemma dropWhile_rev_dropWhile:
  "dropWhile p (rev (dropWhile p (rev (dropWhile p s)))) = rev (dropWhile p (rev (dropWhile p s)))"
proof (cases "dropWhile p s")
  case Nil
  show ?thesis unfolding Nil by simp
next
  case (Cons b bs)
  then have nb: "\<not> p b" by (metis hd_dropWhile list.sel(1) list.distinct(1))
  have "dropWhile p (rev (b # bs)) = dropWhile p (rev bs) @ [b]"
    using nb by (simp add: dropWhile_append)
  then have "rev (dropWhile p (rev (dropWhile p s))) = b # rev (dropWhile p (rev bs))"
    unfolding Cons by simp
  then show ?thesis using nb by simp
qed

lemma trim_idem: "trim (trim s) = trim s"
proof -
  define t where "t = trim s"
  have 1: "dropWhile isWhiteSpace t = t"
    unfolding t_def trim_def by (rule dropWhile_rev_dropWhile)
  have "dropWhile isWhiteSpace (rev t) = rev t"
    unfolding t_def trim_def by (simp only: rev_rev_ident dropWhile_idem)
  then have "trim t = t" by (simp add: trim_def 1)
  then show ?thesis by (simp add: t_def)
qed

lemma hyphenateRuns_True:
  "hyphenateRuns True s = hyphenateRuns False (dropWhile (\<lambda>c. \<not> isAlnumLower c) s)"
  by (induction s) auto

lemma replaceRuns_hyphenate:
  "replaceRuns (\<lambda>c. \<not> isAlnumLower c) ''-'' s = hyphenateRuns False s"
proof (induction "\<lambda>c. \<not> isAlnumLower c" "''-''" s rule: replaceRuns.induct)
  case 1
  then show ?case by simp
next
  case (2 c cs)
  then show ?case by (simp add: hyphenateRuns_True)
qed

lemma replaceRuns_cong:
  "(\<And>c. c \<in> set s \<Longrightarrow> p c = q c) \<Longrightarrow> replaceRuns p r s = replaceRuns q r s"
proof (induction p r s rule: replaceRuns.induct)
  case (1 p r)
  then show ?case by simp
next
  case (2 p r c cs)
  have dw: "dropWhile p cs = dropWhile q cs"
    using "2.prems" by (intro dropWhile_cong) auto
  show ?case
  proof (cases "p c")
    case True
    then have qc: "q c" using "2.prems" by auto
    have "replaceRuns p r (dropWhile p cs) = replaceRuns q r (dropWhile p cs)"
      using "2.IH"(1)[OF True] "2.prems" by (meson set_dropWhileD list.set_intros(2))
    then show ?thesis using True qc dw by simp
  next
    case False
    then have qc: "\<not> q c" using "2.prems" by auto
    have "replaceRuns p r cs = replaceRuns q r cs"
      using "2.IH"(2)[OF False] "2.prems" by auto
    then show ?thesis using False qc by simp
  qed
qed

lemma toLowerChar_class: "isAlnumIgnoreCase (toLowerChar c) = isAlnumLower (toLowerChar c)"
  by (auto simp: toLowerChar_def isAlnumIgnoreCase_def isAlnumLower_def Let_def)

lemma safeName_slug:
  "safeName fn ln = stripHyphens (hyphenateRuns False (toLowerCase (trim (fn @ '' '' @ ln))))"
proof -
  have "replaceRuns (\<lambda>c. \<not> isAlnumIgnoreCase c) ''-'' (toLowerCase t) =
        replaceRuns (\<lambda>c. \<not> isAlnumLower c) ''-'' (toLowerCase t)" for t
    by (rule replaceRuns_cong) (auto simp: toLowerCase_def toLowerChar_class)
  then show ?thesis
    by (simp add: safeName_def Let_def trim_idem replaceRuns_hyphenate)
qed

lemma stripLeadingHyphens_dropWhile:
  "stripLeadingHyphens s = dropWhile (\<lambda>c. c = CHR ''-'') s"
  by (induction s) auto

lemma stripTrailingHyphens_Nil_iff:
  "(stripTrailingHyphens s = []) = (\<forall>c\<in>set s. c = CHR ''-'')"
  by (induction s) auto

lemma stripTrailingHyphens_rev:
  "stripTrailingHyphens s = rev (dropWhile (\<lambda>c. c = CHR ''-'') (rev s))"
proof (induction s)
  case Nil
  then show ?case by simp
next
  case (Cons c cs)
  show ?case
  proof (cases "\<forall>x\<in>set cs. x = CHR ''-''")
    case True
    then have "stripTrailingHyphens cs = []" by (simp add: stripTrailingHyphens_Nil_iff)
    then show ?thesis using True by (simp add: dropWhile_append)
  next
    case False
    then have "stripTrailingHyphens cs \<noteq> []" by (simp add: stripTrailingHyphens_Nil_iff)
    then show ?thesis using False Cons.IH by (auto simp: dropWhile_append)
  qed
qed

lemma stripHyphens_spec:
  "stripHyphens s = stripTrailingHyphens (stripLeadingHyphens s)"
  by (simp add: stripHyphens_def stripLeadingHyphens_dropWhile stripTrailingHyphens_rev)

lemma isAlnumLower_not_hyphen: "isAlnumLower c \<Longrightarrow> c \<noteq> CHR ''-''"
  by (auto simp: isAlnumLower_def)

lemma alnumWords_skip: "\<not> isAlnumLower c \<Longrightarrow> alnumWords (c # cs) = alnumWords cs"
  by (cases cs) auto

lemma alnumWords_Nil_iff: "(alnumWords s = []) = (\<forall>c\<in>set s. \<not> isAlnumLower c)"
  by (induction s rule: alnumWords.induct) (auto split: list.splits)

lemma join_Nil_iff: "(join sep ws = []) = (ws = [] \<or> (sep = [] \<and> (\<forall>w\<in>set ws. w = [])) \<or> ws = [[]])"
  by (induction sep ws rule: join.induct) auto

lemma alnumWords_nonempty: "w \<in> set (alnumWords s) \<Longrightarrow> w \<noteq> []"
  by (induction s arbitrary: w rule: alnumWords.induct) (auto split: if_splits list.splits)

lemma slug_Nil_iff: "(join ''-'' (alnumWords s) = []) = (alnumWords s = [])"
  using alnumWords_nonempty [of "[]" s] by (auto simp: join_Nil_iff)

lemma join_Cons_Cons: "join sep ((c # w) # ws) = c # join sep (w # ws)"
  by (cases ws) auto

lemma join_singleton_Cons:
  "ws \<noteq> [] \<Longrightarrow> join sep ([c] # ws) = c # sep @ join sep ws"
  by (cases ws) auto

lemma slug_word_start:
  "isAlnumLower c \<Longrightarrow> cs = [] \<or> \<not> isAlnumLower (hd cs) \<Longrightarrow>
   join ''-'' (alnumWords (c # cs)) =
     (if alnumWords cs = [] then [c] else c # CHR ''-'' # join ''-'' (alnumWords cs))"
  by (cases cs) (auto simp: join_singleton_Cons)

lemma slug_word_continue:
  "isAlnumLower c \<Longrightarrow> isAlnumLower d \<Longrightarrow>
   join ''-'' (alnumWords (c # d # ds)) = c # join ''-'' (alnumWords (d # ds))"
proof -
  assume c: "isAlnumLower c" and d: "isAlnumLower d"
  have "alnumWords (d # ds) \<noteq> []" using d by (simp add: alnumWords_Nil_iff)
  then obtain w ws where w: "alnumWords (d # ds) = w # ws" by (cases "alnumWords (d # ds)") auto
  show ?thesis using c d by (simp add: w join_Cons_Cons del: join.simps)
qed

lemma stripTrailing_hyphenateRuns:
  "stripTrailingHyphens (hyphenateRuns b s) =
     (if \<not> b \<and> s \<noteq> [] \<and> \<not> isAlnumLower (hd s) \<and> alnumWords s \<noteq> []
      then CHR ''-'' # join ''-'' (alnumWords s) else join ''-'' (alnumWords s))"
proof (induction s arbitrary: b)
  case Nil
  then show ?case by simp
next
  case (Cons c cs)
  show ?case
  proof (cases "isAlnumLower c")
    case True
    note c = True
    have hy: "c \<noteq> CHR ''-''" using c by (rule isAlnumLower_not_hyphen)
    have step: "stripTrailingHyphens (hyphenateRuns b (c # cs)) =
        c # stripTrailingHyphens (hyphenateRuns False cs)"
      using c hy by simp
    show ?thesis
    proof (cases "cs = [] \<or> \<not> isAlnumLower (hd cs)")
      case True
      then show ?thesis
        unfolding step Cons.IH [of False] slug_word_start [OF c True]
        using c by (auto simp: slug_Nil_iff)
    next
      case False
      then obtain d ds where cs: "cs = d # ds" and d: "isAlnumLower d"
        by (cases cs) auto
      show ?thesis
        unfolding step Cons.IH [of False] unfolding cs slug_word_continue [OF c d]
        using c d by simp
    qed
  next
    case False
    note c = False
    show ?thesis
    proof (cases b)
      case True
      then show ?thesis using c Cons.IH [of True] by (simp add: alnumWords_skip)
    next
      case False
      then show ?thesis using c Cons.IH [of True]
        by (simp add: alnumWords_skip slug_Nil_iff)
    qed
  qed
qed

lemma stripLeading_hyphenateRuns_start:
  "s = [] \<or> isAlnumLower (hd s) \<Longrightarrow>
   stripLeadingHyphens (hyphenateRuns b s) = hyphenateRuns b s"
  by (cases s) (auto dest: isAlnumLower_not_hyphen)

lemma dropWhile_start:
  "dropWhile (\<lambda>c. \<not> isAlnumLower c) s = [] \<or>
   isAlnumLower (hd (dropWhile (\<lambda>c. \<not> isAlnumLower c) s))"
  using hd_dropWhile [of "\<lambda>c. \<not> isAlnumLower c" s] by auto

lemma stripLeading_hyphenateRuns:
  "stripLeadingHyphens (hyphenateRuns b s) =
   hyphenateRuns False (dropWhile (\<lambda>c. \<not> isAlnumLower c) s)"
proof (induction s arbitrary: b)
  case Nil
  then show ?case by simp
next
  case (Cons c cs)
  show ?case
  proof (cases "isAlnumLower c")
    case True
    then show ?thesis by (auto dest: isAlnumLower_not_hyphen)
  next
    case False
    then show ?thesis using Cons.IH [of True] by simp
  qed
qed

lemma alnumWords_dropWhile:
  "alnumWords (dropWhile (\<lambda>c. \<not> isAlnumLower c) s) = alnumWords s"
  by (induction s) (simp_all add: alnumWords_skip)

lemma stripped_slug:
  "stripTrailingHyphens (stripLeadingHyphens (hyphenateRuns False s)) = join ''-'' (alnumWords s)"
  unfolding stripLeading_hyphenateRuns stripTrailing_hyphenateRuns
  using dropWhile_start [of s] by (auto simp: alnumWords_dropWhile)

lemma fileName_nameFor: "fileName fn ln = nameFor fn ln"
  by (simp add: fileName_def nameFor_def Let_def safeName_slug stripHyphens_spec)

lemma trim_Nil: "trim [] = []"
  by (simp add: trim_def)

lemma splitOn_no_sep: "sep \<notin> set l \<Longrightarrow> splitOn sep l = [l]"
  by (induction l) auto

lemma splitOn_append_sep:
  "sep \<notin> set l \<Longrightarrow> splitOn sep (l @ sep # r) = l # splitOn sep r"
  by (induction l) (auto split: list.splits)

lemma splitOn_join:
  "ls \<noteq> [] \<Longrightarrow> (\<And>l. l \<in> set ls \<Longrightarrow> sep \<notin> set l) \<Longrightarrow> splitOn sep (join [sep] ls) = ls"
proof (induction "[sep]" ls rule: join.induct)
  case 1
  then show ?case by simp
next
  case (2 x)
  then show ?case by (simp add: splitOn_no_sep)
next
  case (3 x y ys)
  have "splitOn sep (join [sep] (y # ys)) = y # ys"
    using 3 by simp
  then show ?case using "3.prems" by (simp add: splitOn_append_sep)
qed

lemma set_trim: "set (trim s) \<subseteq> set s"
  unfolding trim_def
  by (metis set_dropWhileD set_rev subsetI)

lemma notin_trim: "c \<notin> set s \<Longrightarrow> c \<notin> set (trim s)"
  using set_trim by blast

lemma notin_join:
  "(\<And>l. l \<in> set ls \<Longrightarrow> c \<notin> set l) \<Longrightarrow> c \<notin> set sep \<Longrightarrow> c \<notin> set (join sep ls)"
  by (induction sep ls rule: join.induct) auto

lemma buildVCard_lines_no_LF:
  assumes "list_all (\<lambda>f. CHR 0x0A \<notin> set (getField f d)) fieldKeys"
    and "l \<in> set (buildVCard_lines d)"
  shows "CHR 0x0A \<notin> set l"
proof -
  from assms(1) have f: "CHR 0x0A \<notin> set (firstName d)" "CHR 0x0A \<notin> set (lastName d)"
    "CHR 0x0A \<notin> set (jobTitle d)" "CHR 0x0A \<notin> set (company d)" "CHR 0x0A \<notin> set (email d)"
    "CHR 0x0A \<notin> set (phone d)" "CHR 0x0A \<notin> set (website d)" "CHR 0x0A \<notin> set (street d)"
    "CHR 0x0A \<notin> set (city d)" "CHR 0x0A \<notin> set (state d)" "CHR 0x0A \<notin> set (postalCode d)"
    "CHR 0x0A \<notin> set (country d)"
    by (simp_all add: fieldKeys_def)
  have dn: "CHR 0x0A \<notin> set (displayName d)"
    using f(1,2) notin_trim [of "CHR 0x0A" "firstName d @ '' '' @ lastName d"]
    by (simp add: displayName_def Let_def)
  have adr: "CHR 0x0A \<notin> set (join '';'' (map trim (addressSegments d)))"
    using f by (intro notin_join) (auto simp: addressSegments_def trim_Nil dest: notin_trim)
  from assms(2) show ?thesis
    using f dn adr by (auto simp: buildVCard_lines_def split: if_splits)
qed

lemma buildVCard_lines_nonempty: "buildVCard_lines d \<noteq> []"
  by (simp add: buildVCard_lines_def)

lemma splitOn_buildVCard:
  "list_all (\<lambda>f. CHR 0x0A \<notin> set (getField f d)) fieldKeys \<Longrightarrow>
   splitOn (CHR 0x0A) (buildVCard d) = buildVCard_lines d"
  unfolding buildVCard_def
  by (rule splitOn_join [OF buildVCard_lines_nonempty]) (rule buildVCard_lines_no_LF)

section \<open>Serialisation\<close>

text \<open>
  Claim C5. For the record with first name \<^verbatim>\<open>Ana\<close>, last name \<^verbatim>\<open>Pop\<close>, phone
  \<^verbatim>\<open>+40712345678\<close> and every other field empty, \<^verbatim>\<open>buildVCard\<close> returns the six lines
  \<^verbatim>\<open>BEGIN:VCARD\<close>, \<^verbatim>\<open>VERSION:3.0\<close>, \<^verbatim>\<open>N:Pop;Ana\<close>, \<^verbatim>\<open>FN:Ana Pop\<close>,
  \<^verbatim>\<open>TEL;TYPE=CELL:+40712345678\<close>, \<^verbatim>\<open>END:VCARD\<close>, joined by one line feed each, with no
  separator after the last line.
\<close>

theorem buildVCard_Ana_Pop:
  "buildVCard
     (initialFormState\<lparr>firstName := ''Ana'', lastName := ''Pop'', phone := ''+40712345678''\<rparr>) =
   ''BEGIN:VCARD'' @ [CHR 0x0A] @ ''VERSION:3.0'' @ [CHR 0x0A] @ ''N:Pop;Ana'' @ [CHR 0x0A] @
   ''FN:Ana Pop'' @ [CHR 0x0A] @ ''TEL;TYPE=CELL:+40712345678'' @ [CHR 0x0A] @ ''END:VCARD''"
  by (simp add: buildVCard_def buildVCard_lines_def initialFormState_def displayName_def
      addressSegments_def trim_def isWhiteSpace_def)

text \<open>
  Claim C6. For every record, the lines that \<^verbatim>\<open>buildVCard\<close> joins contain a line
  \<^verbatim>\<open>ADR;TYPE=WORK:\<close> if and only if one of street, city, state, postal code and country is
  not empty after trimming. There is then exactly one such line: the two empty leading
  segments followed by the five trimmed values, each in its position also when it is empty,
  separated by semicolons. When no field of the record holds a line feed, as for every
  record typed into the form's input elements, the lines joined are the lines of the text
  returned.
\<close>

theorem buildVCard_address_line:
  "buildVCard d = join [CHR 0x0A] (buildVCard_lines d) \<and>
   filter (prefix ''ADR;TYPE=WORK:'') (buildVCard_lines d) =
     (if trim (street d) = [] \<and> trim (city d) = [] \<and> trim (state d) = [] \<and>
         trim (postalCode d) = [] \<and> trim (country d) = []
      then []
      else [''ADR;TYPE=WORK:;;'' @ trim (street d) @ '';'' @ trim (city d) @ '';'' @
            trim (state d) @ '';'' @ trim (postalCode d) @ '';'' @ trim (country d)]) \<and>
   (list_all (\<lambda>f. CHR 0x0A \<notin> set (getField f d)) fieldKeys \<longrightarrow>
      splitOn (CHR 0x0A) (buildVCard d) = buildVCard_lines d)"
  by (simp add: buildVCard_def [symmetric] splitOn_buildVCard)
    (simp add: buildVCard_def buildVCard_lines_def addressSegments_def trim_Nil)

theorem buildVCard_address_line_witness:
  "filter (prefix ''ADR;TYPE=WORK:'')
     (splitOn (CHR 0x0A)
        (buildVCard
           (initialFormState\<lparr>firstName := ''Ana'', street := '' Main St 1'', country := ''RO ''\<rparr>))) =
   [''ADR;TYPE=WORK:;;Main St 1;;;;RO''] \<and>
   filter (prefix ''ADR;TYPE=WORK:'')
     (splitOn (CHR 0x0A) (buildVCard (initialFormState\<lparr>firstName := ''Ana'', street := ''  ''\<rparr>))) =
   []"
proof -
  let ?d1 = "initialFormState\<lparr>firstName := ''Ana'', street := '' Main St 1'', country := ''RO ''\<rparr>"
  let ?d2 = "initialFormState\<lparr>firstName := ''Ana'', street := ''  ''\<rparr>"
  have h1: "list_all (\<lambda>f. CHR 0x0A \<notin> set (getField f ?d1)) fieldKeys"
    by (simp add: fieldKeys_def initialFormState_def)
  have h2: "list_all (\<lambda>f. CHR 0x0A \<notin> set (getField f ?d2)) fieldKeys"
    by (simp add: fieldKeys_def initialFormState_def)
  from buildVCard_address_line [of ?d1] h1
  have s1: "splitOn (CHR 0x0A) (buildVCard ?d1) = buildVCard_lines ?d1" by blast
  from buildVCard_address_line [of ?d1]
  have "filter (prefix ''ADR;TYPE=WORK:'') (buildVCard_lines ?d1) =
     (if trim (street ?d1) = [] \<and> trim (city ?d1) = [] \<and> trim (state ?d1) = [] \<and>
         trim (postalCode ?d1) = [] \<and> trim (country ?d1) = []
      then []
      else [''ADR;TYPE=WORK:;;'' @ trim (street ?d1) @ '';'' @ trim (city ?d1) @ '';'' @
            trim (state ?d1) @ '';'' @ trim (postalCode ?d1) @ '';'' @ trim (country ?d1)])"
    by blast
  then have 1: "filter (prefix ''ADR;TYPE=WORK:'') (splitOn (CHR 0x0A) (buildVCard ?d1)) =
      [''ADR;TYPE=WORK:;;Main St 1;;;;RO'']"
    unfolding s1 by (simp add: initialFormState_def trim_def isWhiteSpace_def)
  from buildVCard_address_line [of ?d2] h2
  have s2: "splitOn (CHR 0x0A) (buildVCard ?d2) = buildVCard_lines ?d2" by blast
  from buildVCard_address_line [of ?d2]
  have "filter (prefix ''ADR;TYPE=WORK:'') (buildVCard_lines ?d2) =
     (if trim (street ?d2) = [] \<and> trim (city ?d2) = [] \<and> trim (state ?d2) = [] \<and>
         trim (postalCode ?d2) = [] \<and> trim (country ?d2) = []
      then []
      else [''ADR;TYPE=WORK:;;'' @ trim (street ?d2) @ '';'' @ trim (city ?d2) @ '';'' @
            trim (state ?d2) @ '';'' @ trim (postalCode ?d2) @ '';'' @ trim (country ?d2)])"
    by blast
  then have 2: "filter (prefix ''ADR;TYPE=WORK:'') (splitOn (CHR 0x0A) (buildVCard ?d2)) = []"
    unfolding s2 by (simp add: initialFormState_def trim_def isWhiteSpace_def)
  from 1 2 show ?thesis by blast
qed

section \<open>The download name\<close>

lemma alnumWords_append_outside:
  "\<forall>c\<in>set ys. \<not> isAlnumLower c \<Longrightarrow> alnumWords (xs @ ys) = alnumWords xs"
proof (induction xs rule: alnumWords.induct)
  case 1
  then show ?case by (simp add: alnumWords_Nil_iff)
next
  case (2 c)
  then have "alnumWords ys = []" by (simp add: alnumWords_Nil_iff)
  then show ?case using 2 by (cases ys) auto
next
  case (3 c d cs)
  then show ?case by simp
qed

lemma whiteSpace_outside: "isWhiteSpace c \<Longrightarrow> \<not> isAlnumLower (toLowerChar c)"
  by (auto simp: isWhiteSpace_def toLowerChar_def isAlnumLower_def)

lemma alnumWords_lower_dropWhile:
  "alnumWords (toLowerCase (dropWhile isWhiteSpace s)) = alnumWords (toLowerCase s)"
  by (induction s) (simp_all add: toLowerCase_def alnumWords_skip whiteSpace_outside)

lemma alnumWords_lower_dropWhileEnd:
  "alnumWords (toLowerCase (rev (dropWhile isWhiteSpace (rev s)))) = alnumWords (toLowerCase s)"
proof -
  have "s = rev (dropWhile isWhiteSpace (rev s)) @ rev (takeWhile isWhiteSpace (rev s))"
    by (metis rev_append rev_rev_ident takeWhile_dropWhile_id)
  then have "toLowerCase s =
      toLowerCase (rev (dropWhile isWhiteSpace (rev s))) @
      toLowerCase (rev (takeWhile isWhiteSpace (rev s)))"
    by (metis map_append toLowerCase_def)
  moreover have "\<forall>c\<in>set (toLowerCase (rev (takeWhile isWhiteSpace (rev s)))). \<not> isAlnumLower c"
    by (auto simp: toLowerCase_def dest: set_takeWhileD whiteSpace_outside)
  ultimately show ?thesis by (simp add: alnumWords_append_outside)
qed

lemma alnumWords_lower_trim: "alnumWords (toLowerCase (trim s)) = alnumWords (toLowerCase s)"
  by (simp add: trim_def alnumWords_lower_dropWhileEnd alnumWords_lower_dropWhile)

lemma safeName_words:
  "safeName fn ln = join ''-'' (alnumWords (toLowerCase (fn @ '' '' @ ln)))"
  by (simp add: safeName_slug stripHyphens_spec stripped_slug alnumWords_lower_trim)

lemma toLowerChar_alnum: "isAlnumLower (toLowerChar c) = isAlnumIgnoreCase c"
  by (auto simp: toLowerChar_def isAlnumIgnoreCase_def isAlnumLower_def Let_def)

lemma safeName_Nil_iff:
  "(safeName fn ln = []) = list_all (\<lambda>c. \<not> isAlnumIgnoreCase c) (fn @ ln)"
proof -
  have sp: "\<not> isAlnumIgnoreCase CHR '' ''" by (simp add: isAlnumIgnoreCase_def)
  show ?thesis
    unfolding safeName_words slug_Nil_iff alnumWords_Nil_iff
    using sp by (simp add: toLowerCase_def toLowerChar_alnum list_all_iff ball_Un)
qed

lemma dropWhile_fixed_take:
  "dropWhile p r = r \<Longrightarrow> p c \<Longrightarrow> take 1 r \<noteq> [c]"
proof
  assume a: "dropWhile p r = r" "p c" "take 1 r = [c]"
  then obtain xs where r: "r = c # xs" by (cases r) auto
  have "length (dropWhile p xs) \<le> length xs" by (rule length_dropWhile_le)
  then show False using a(1,2) unfolding r by (auto dest!: arg_cong [where f = length])
qed

lemma stripHyphens_ends:
  "take 1 (stripHyphens s) \<noteq> ''-'' \<and> take 1 (rev (stripHyphens s)) \<noteq> ''-''"
proof -
  have 1: "dropWhile (\<lambda>c. c = CHR ''-'') (stripHyphens s) = stripHyphens s"
    unfolding stripHyphens_def by (rule dropWhile_rev_dropWhile)
  have 2: "dropWhile (\<lambda>c. c = CHR ''-'') (rev (stripHyphens s)) = rev (stripHyphens s)"
    unfolding stripHyphens_def by (simp only: rev_rev_ident dropWhile_idem)
  show ?thesis
    using dropWhile_fixed_take [OF 1, of "CHR ''-''"] dropWhile_fixed_take [OF 2, of "CHR ''-''"]
    by simp
qed

lemma safeName_ends:
  "take 1 (safeName fn ln) \<noteq> ''-'' \<and> take 1 (rev (safeName fn ln)) \<noteq> ''-''"
  unfolding safeName_def Let_def by (rule stripHyphens_ends)

text \<open>
  Claim C7. For every first and last name, the name \<^verbatim>\<open>downloadQrCode\<close> gives the download
  is the one the specification describes (\<open>nameFor\<close>): "first last" trimmed and lower-cased,
  every maximal run of characters outside \<^verbatim>\<open>[a-z0-9]\<close> replaced by one hyphen, leading and
  trailing hyphens stripped, \<^verbatim>\<open>contact\<close> in place of an empty result, and \<^verbatim>\<open>-vcard-qr.png\<close>
  appended. The slug is the maximal runs of letters and digits of the lower-cased
  "first last", joined by single hyphens: it neither starts nor ends with a hyphen, and it is
  empty, so that the default base name is used, exactly when the names hold no letter and no
  digit. A download happens only while an artifact is held. The names \<^verbatim>\<open>X\<close> and \<^verbatim>\<open>Y\<close> give
  \<^verbatim>\<open>x-y-vcard-qr.png\<close>; empty names and names of punctuation only give
  \<^verbatim>\<open>contact-vcard-qr.png\<close>.
\<close>

theorem downloadQrCode_fileName:
  "fileName fn ln = nameFor fn ln \<and>
   downloadQrCode st =
     (case qrCodeData st of
        None \<Rightarrow> None
      | Some href \<Rightarrow>
          if href = [] then None
          else Some (href, nameFor (firstName (formData st)) (lastName (formData st)))) \<and>
   fileName fn ln =
     (if safeName fn ln = [] then ''contact'' else safeName fn ln) @ ''-vcard-qr.png'' \<and>
   safeName fn ln = join ''-'' (alnumWords (toLowerCase (fn @ '' '' @ ln))) \<and>
   (safeName fn ln = []) = list_all (\<lambda>c. \<not> isAlnumIgnoreCase c) (fn @ ln) \<and>
   take 1 (safeName fn ln) \<noteq> ''-'' \<and>
   take 1 (rev (safeName fn ln)) \<noteq> ''-'' \<and>
   fileName ''X'' ''Y'' = ''x-y-vcard-qr.png'' \<and>
   fileName [] [] = ''contact-vcard-qr.png'' \<and>
   fileName ''!!!'' ''???'' = ''contact-vcard-qr.png'' \<and>
   fileName '' -Ana- '' ''Pop!'' = ''ana-pop-vcard-qr.png''"
proof -
  have 1: "fileName ''X'' ''Y'' = ''x-y-vcard-qr.png''" by code_simp
  have 2: "fileName [] [] = ''contact-vcard-qr.png''" by code_simp
  have 3: "fileName ''!!!'' ''???'' = ''contact-vcard-qr.png''" by code_simp
  have 4: "fileName '' -Ana- '' ''Pop!'' = ''ana-pop-vcard-qr.png''" by code_simp
  have 5: "downloadQrCode st =
     (case qrCodeData st of
        None \<Rightarrow> None
      | Some href \<Rightarrow>
          if href = [] then None
          else Some (href, nameFor (firstName (formData st)) (lastName (formData st))))"
    by (simp add: fileName_nameFor downloadQrCode_def split: option.split)
  have 6: "fileName fn ln =
     (if safeName fn ln = [] then ''contact'' else safeName fn ln) @ ''-vcard-qr.png''"
    by (simp add: fileName_def)
  from 1 2 3 4 5 6 fileName_nameFor [of fn ln] safeName_words [of fn ln]
    safeName_Nil_iff [of fn ln] safeName_ends [of fn ln]
  show ?thesis by blast
qed

theorem downloadQrCode_fileName_witness:
  "safeName ''--Jo.se  '' ''O'Neil-'' = ''jo-se-o-neil'' \<and>
   fileName ''--Jo.se  '' ''O'Neil-'' = ''jo-se-o-neil-vcard-qr.png'' \<and>
   safeName '' - '' ''-.-'' = []"
proof -
  note t1 = downloadQrCode_fileName [of "''--Jo.se  ''" "''O'Neil-''"]
  note t2 = downloadQrCode_fileName [of "'' - ''" "''-.-''"]
  have w: "join ''-'' (alnumWords (toLowerCase (''--Jo.se  '' @ '' '' @ ''O'Neil-''))) =
      ''jo-se-o-neil''"
    by code_simp
  from t1 have "safeName ''--Jo.se  '' ''O'Neil-'' =
      join ''-'' (alnumWords (toLowerCase (''--Jo.se  '' @ '' '' @ ''O'Neil-'')))"
    by (rule conjunct1 [OF conjunct2 [OF conjunct2 [OF conjunct2]]])
  then have a: "safeName ''--Jo.se  '' ''O'Neil-'' = ''jo-se-o-neil''"
    by (simp only: w)
  from t1 have "fileName ''--Jo.se  '' ''O'Neil-'' =
     (if safeName ''--Jo.se  '' ''O'Neil-'' = [] then ''contact''
      else safeName ''--Jo.se  '' ''O'Neil-'') @ ''-vcard-qr.png''"
    by (rule conjunct1 [OF conjunct2 [OF conjunct2]])
  then have b: "fileName ''--Jo.se  '' ''O'Neil-'' = ''jo-se-o-neil-vcard-qr.png''"
    unfolding a by simp
  have h: "list_all (\<lambda>c. \<not> isAlnumIgnoreCase c) ('' - '' @ ''-.-'')"
    by (simp add: isAlnumIgnoreCase_def)
  from t2 have "(safeName '' - '' ''-.-'' = []) =
      list_all (\<lambda>c. \<not> isAlnumIgnoreCase c) ('' - '' @ ''-.-'')"
    by (rule conjunct1 [OF conjunct2 [OF conjunct2 [OF conjunct2 [OF conjunct2]]]])
  with h have c: "safeName '' - '' ''-.-'' = []" by (simp only:)
  from a b c show ?thesis by (intro conjI)
qed

section \<open>Properties of the validation\<close>


lemma run_shape_messages:
  "map message (issues (run G (shape f) v)) =
     (case fieldRule G f v of None \<Rightarrow> [] | Some m \<Rightarrow> [m])"
  by (cases f)
    (auto simp: shape_def fieldRule_def handleUnionResults_def aborted_def
      split: option.splits)

lemma run_shape_issues_Nil:
  "(issues (run G (shape f) v) = []) = (fieldRule G f v = None)"
  using run_shape_messages [of G f v] by (auto split: option.splits)

lemma run_shape_first_message:
  "(case issues (run G (shape f) v) of i # _ \<Rightarrow> message i | [] \<Rightarrow> ''validation.generic'') =
     (case fieldRule G f v of Some m \<Rightarrow> m | None \<Rightarrow> ''validation.generic'')"
  using run_shape_messages [of G f v] by (auto split: option.splits list.splits)

lemma fieldRule_message_nonempty: "fieldRule G f v \<noteq> Some []"
  by (auto simp: fieldRule_def)

lemma run_shape_plain_value:
  "f \<noteq> Email \<Longrightarrow> f \<noteq> Website \<Longrightarrow> pvalue (run G (shape f) v) = trim v"
  by (cases f) (auto simp: shape_def aborted_def)

lemma setFieldError_upd:
  "msg \<noteq> Some [] \<Longrightarrow> setFieldError f msg previous = previous(f := msg)"
proof (cases msg)
  case None
  then show ?thesis by (auto simp: setFieldError_def domIff)
next
  case (Some m)
  assume "msg \<noteq> Some []"
  then show ?thesis using Some by (auto simp: setFieldError_def fun_upd_idem)
qed

lemma validateField_eq:
  "validateField G f v st =
     (fieldRule G f v = None, st\<lparr>errors := (errors st)(f := fieldRule G f v)\<rparr>)"
proof (cases "fieldRule G f v")
  case None
  then have "issues (run G (shape f) v) = []" by (simp add: run_shape_issues_Nil)
  then show ?thesis using None
    by (simp add: validateField_def Let_def setFieldError_upd)
next
  case (Some m)
  then have ne: "issues (run G (shape f) v) \<noteq> []" by (simp add: run_shape_issues_Nil)
  have m: "Some m \<noteq> Some []" using fieldRule_message_nonempty [of G f v] Some by auto
  have "(case issues (run G (shape f) v) of i # _ \<Rightarrow> message i | [] \<Rightarrow> ''validation.generic'') = m"
    using run_shape_first_message [of G f v] Some by simp
  then show ?thesis using Some ne setFieldError_upd [OF m]
    by (simp add: validateField_def Let_def)
qed

lemma lookup_addFieldError:
  "case_option [] id (map_of (addFieldError acc (k, m)) k') =
   case_option [] id (map_of acc k') @ (if k' = k then [m] else [])"
  by (induction acc) auto

lemma keys_addFieldError:
  "map fst (addFieldError acc (k, m)) =
     (if k \<in> fst ` set acc then map fst acc else map fst acc @ [k])"
  by (induction acc) force+

lemma distinct_addFieldError:
  "distinct (map fst acc) \<Longrightarrow> distinct (map fst (addFieldError acc p))"
  by (cases p) (simp add: keys_addFieldError)

lemma lookup_foldl_addFieldError:
  "case_option [] id (map_of (foldl addFieldError acc iss) k) =
   case_option [] id (map_of acc k) @ map snd (filter (\<lambda>p. fst p = k) iss)"
proof (induction iss arbitrary: acc)
  case Nil
  then show ?case by simp
next
  case (Cons p iss)
  obtain k' m where p: "p = (k', m)" by (cases p)
  show ?case unfolding p by (simp add: Cons.IH lookup_addFieldError)
qed

lemma distinct_foldl_addFieldError:
  "distinct (map fst acc) \<Longrightarrow> distinct (map fst (foldl addFieldError acc iss))"
  by (induction iss arbitrary: acc) (simp_all add: distinct_addFieldError)

lemma reduce_first_messages:
  "distinct (map fst es) \<Longrightarrow>
   foldl (\<lambda>accumulator (key, messages).
            case messages of m # _ \<Rightarrow> accumulator(key \<mapsto> m) | [] \<Rightarrow> accumulator) M es k =
     (case case_option [] id (map_of es k) of m # _ \<Rightarrow> Some m | [] \<Rightarrow> M k)"
proof (induction es arbitrary: M)
  case Nil
  then show ?case by simp
next
  case (Cons e es)
  obtain k' ms where e: "e = (k', ms)" by (cases e)
  from Cons.prems have d: "distinct (map fst es)" and nk: "k' \<notin> fst ` set es"
    by (auto simp: e)
  have none: "k' = k \<Longrightarrow> map_of es k = None"
    using nk by (simp add: map_of_eq_None_iff)
  show ?case
  proof (cases "k' = k")
    case True
    then show ?thesis unfolding e
      by (simp add: Cons.IH [OF d] none split: list.splits)
  next
    case False
    then show ?thesis unfolding e
      by (simp add: Cons.IH [OF d] split: list.splits option.splits)
  qed
qed

lemma validationErrors_eq:
  "validationErrors iss k =
     (case map snd (filter (\<lambda>p. fst p = k) iss) of m # _ \<Rightarrow> Some m | [] \<Rightarrow> None)"
proof -
  have d: "distinct (map fst (fieldErrors iss))"
    unfolding fieldErrors_def by (rule distinct_foldl_addFieldError) simp
  have l: "case_option [] id (map_of (fieldErrors iss) k) = map snd (filter (\<lambda>p. fst p = k) iss)"
    unfolding fieldErrors_def by (simp add: lookup_foldl_addFieldError)
  show ?thesis
    unfolding validationErrors_def by (simp add: reduce_first_messages [OF d] l)
qed

lemma filter_key_concat:
  "distinct ks \<Longrightarrow>
   map snd (filter (\<lambda>p. fst p = k) (concat (map (\<lambda>k'. map (\<lambda>i. (k', h i)) (g k')) ks))) =
     (if k \<in> set ks then map h (g k) else [])"
proof (induction ks)
  case Nil
  then show ?case by simp
next
  case (Cons a ks)
  have 1: "filter (\<lambda>p. fst p = k) (map (\<lambda>i. (a, h i)) (g a)) =
           (if a = k then map (\<lambda>i. (a, h i)) (g a) else [])"
    by (induction "g a") (auto simp: filter_map comp_def)
  from Cons show ?case by (auto simp: 1 comp_def)
qed

lemma fieldKeys_all: "k \<in> set fieldKeys"
  by (cases k) (simp_all add: fieldKeys_def)

lemma fieldKeys_distinct: "distinct fieldKeys"
  by (simp add: fieldKeys_def)

lemma objectIssues_key:
  "map snd (filter (\<lambda>p. fst p = k) (objectIssues G d)) =
   (case fieldRule G k (getField k d) of None \<Rightarrow> [] | Some m \<Rightarrow> [m])"
  unfolding objectIssues_def
  by (simp add: filter_key_concat [OF fieldKeys_distinct] fieldKeys_all run_shape_messages)

lemma validationErrors_objectIssues:
  "validationErrors (objectIssues G d) = (\<lambda>k. fieldRule G k (getField k d))"
  by (rule ext) (simp add: validationErrors_eq objectIssues_key split: option.split)

lemma objectIssues_Nil:
  "(objectIssues G d = []) = list_all (\<lambda>k. fieldRule G k (getField k d) = None) fieldKeys"
  unfolding objectIssues_def
  by (simp add: list_all_iff run_shape_issues_Nil)

lemma handleSubmit_invalid:
  "isl (safeParse G (formData st)) \<Longrightarrow>
   handleSubmit G st =
     (st\<lparr>errors := (\<lambda>k. fieldRule G k (getField k (formData st)))\<rparr>, None)"
  by (auto simp: handleSubmit_def safeParse_def validationErrors_objectIssues
      split: if_splits)

lemma handleSubmit_valid:
  "\<not> isl (safeParse G (formData st)) \<Longrightarrow>
   handleSubmit G st =
     (st\<lparr>errors := Map.empty, qrError := None, isGenerating := True\<rparr>,
      Some \<lparr>vcardPayload = buildVCard (parsedData G (formData st)),
            errorCorrectionLevel = ''M'', margin = 1, scale = 6\<rparr>)"
  by (auto simp: handleSubmit_def safeParse_def split: if_splits)

lemma safeParse_isl:
  "isl (safeParse G d) = (\<not> list_all (\<lambda>k. fieldRule G k (getField k d) = None) fieldKeys)"
  by (simp add: safeParse_def objectIssues_Nil)

lemma fieldRule_trim:
  "f \<noteq> Email \<Longrightarrow> \<not> (f = Website \<and> trim v = []) \<Longrightarrow>
   fieldRule G f (trim v) = fieldRule G f v"
  by (auto simp: fieldRule_def trim_idem trim_Nil)

lemmas ev = formWith_def anaPop_def noName_def initialVCardForm_def initialFormState_def
  exampleLib_def exampleNewURL_def fieldKeys_def trim_def isWhiteSpace_def

text \<open>
  Claim C2, as amended. Every field but the email is validated as if its value had been
  trimmed first, with one exception for the website. First name and phone validate exactly
  when they are not empty after trimming, the other eight plain-text fields always. The
  website validates exactly when it is the empty string or its trimmed value is an absolute
  URL: a URL with white space around it validates as the URL does, but a website that is not
  empty and consists of white space only fails, because the empty string it is trimmed to is
  no URL and the value itself is not the empty string. The email is validated as it was
  entered, without trimming: it validates exactly when it is the empty string or matches the
  email grammar. The whole record validates exactly when each of its fields does.
\<close>

theorem validateField_rules:
  "fst (validateField G f v st) =
     (if f = FirstName \<or> f = Phone then trim v \<noteq> []
      else if f = Email then v = [] \<or> emailPattern G v
      else if f = Website then v = [] \<or> newURL G (trim v)
      else True) \<and>
   (f \<noteq> Email \<and> \<not> (f = Website \<and> trim v = []) \<longrightarrow>
      validateField G f (trim v) st = validateField G f v st) \<and>
   (v \<noteq> [] \<and> trim v = [] \<longrightarrow> fst (validateField G Website v st) = newURL G []) \<and>
   (snd (handleSubmit G st) \<noteq> None) =
     list_all (\<lambda>k. fst (validateField G k (getField k (formData st)) st)) fieldKeys"
proof -
  have 1: "fst (validateField G f v st) =
     (if f = FirstName \<or> f = Phone then trim v \<noteq> []
      else if f = Email then v = [] \<or> emailPattern G v
      else if f = Website then v = [] \<or> newURL G (trim v)
      else True)"
    by (simp add: validateField_eq fieldRule_def)
  have 2: "f \<noteq> Email \<and> \<not> (f = Website \<and> trim v = []) \<longrightarrow>
      validateField G f (trim v) st = validateField G f v st"
    by (auto simp: validateField_eq fieldRule_trim)
  have 3: "v \<noteq> [] \<and> trim v = [] \<longrightarrow> fst (validateField G Website v st) = newURL G []"
    by (simp add: validateField_eq fieldRule_def)
  have 4: "(snd (handleSubmit G st) \<noteq> None) =
     list_all (\<lambda>k. fst (validateField G k (getField k (formData st)) st)) fieldKeys"
  proof (cases "isl (safeParse G (formData st))")
    case True
    then show ?thesis
      using safeParse_isl [of G "formData st"]
      by (simp add: handleSubmit_invalid validateField_eq)
  next
    case False
    then show ?thesis
      using safeParse_isl [of G "formData st"]
      by (simp add: handleSubmit_valid validateField_eq)
  qed
  from 1 2 3 4 show ?thesis by blast
qed

theorem validateField_rules_witness:
  "fst (validateField exampleLib FirstName '' Ana '' (formWith anaPop)) \<and>
   validateField exampleLib FirstName (trim '' Ana '') (formWith anaPop) =
     validateField exampleLib FirstName '' Ana '' (formWith anaPop) \<and>
   fst (validateField exampleLib Website '' https://example.com '' (formWith anaPop)) \<and>
   validateField exampleLib Website (trim '' https://example.com '') (formWith anaPop) =
     validateField exampleLib Website '' https://example.com '' (formWith anaPop) \<and>
   \<not> fst (validateField exampleLib Website [CHR 0x09, CHR 0x20] (formWith anaPop)) \<and>
   snd (handleSubmit exampleLib (formWith anaPop)) \<noteq> None"
proof -
  note t1 = validateField_rules [of exampleLib FirstName "'' Ana ''" "formWith anaPop"]
  note t2 = validateField_rules [of exampleLib Website "'' https://example.com ''" "formWith anaPop"]
  note t3 = validateField_rules [of exampleLib Website "[CHR 0x09, CHR 0x20]" "formWith anaPop"]
  have h1: "trim '' Ana '' = ''Ana''" by (simp add: trim_def isWhiteSpace_def)
  have h2: "trim '' https://example.com '' = ''https://example.com''"
    by (simp add: trim_def isWhiteSpace_def)
  have h3: "trim [CHR 0x09, CHR 0x20] = []" by (simp add: trim_def isWhiteSpace_def)
  have u1: "newURL exampleLib ''https://example.com''"
    by (simp add: exampleLib_def exampleNewURL_def)
  have u2: "\<not> newURL exampleLib []" by (simp add: exampleLib_def exampleNewURL_def)
  from t1 h1 have a: "fst (validateField exampleLib FirstName '' Ana '' (formWith anaPop))"
    by simp
  from t1 h1 have b: "validateField exampleLib FirstName (trim '' Ana '') (formWith anaPop) =
     validateField exampleLib FirstName '' Ana '' (formWith anaPop)"
    by simp
  from t2 h2 u1
  have c: "fst (validateField exampleLib Website '' https://example.com '' (formWith anaPop))"
    by simp
  from t2 h2
  have d: "validateField exampleLib Website (trim '' https://example.com '') (formWith anaPop) =
     validateField exampleLib Website '' https://example.com '' (formWith anaPop)"
    by simp
  from t3 h3 u2
  have e: "\<not> fst (validateField exampleLib Website [CHR 0x09, CHR 0x20] (formWith anaPop))"
    by simp
  have "list_all (\<lambda>k. fst (validateField exampleLib k (getField k (formData (formWith anaPop)))
      (formWith anaPop))) fieldKeys"
    by (simp add: validateField_eq fieldRule_def ev)
  with t1 have f: "snd (handleSubmit exampleLib (formWith anaPop)) \<noteq> None"
    by blast
  from a b c d e f show ?thesis by blast
qed

text \<open>
  Claim C2 as stated fails: an email of one space and a website of one space are empty after
  trimming, and neither the validation of the field nor the validation of a record holding
  one of them succeeds.
\<close>

theorem validateField_blank_email_website:
  "trim '' '' = [] \<and>
   \<not> fst (validateField exampleLib Email '' '' (formWith anaPop)) \<and>
   snd (handleSubmit exampleLib (formWith (anaPop\<lparr>email := '' ''\<rparr>))) = None \<and>
   \<not> fst (validateField exampleLib Website '' '' (formWith anaPop)) \<and>
   snd (handleSubmit exampleLib (formWith (anaPop\<lparr>website := '' ''\<rparr>))) = None"
proof -
  have 1: "trim '' '' = []" by (simp add: trim_def isWhiteSpace_def)
  have z: "\<not> zodEmailPattern '' ''" by (simp add: zodEmailPattern_def)
  have 2: "\<not> fst (validateField exampleLib Email '' '' (formWith anaPop))"
    using z
    by (simp add: validateField_def Let_def shape_def handleUnionResults_def aborted_def
        exampleLib_def)
  have "objectIssues exampleLib (anaPop\<lparr>email := '' ''\<rparr>) = [(Email, ''validation.emailInvalid'')]"
    using z by (simp add: objectIssues_def shape_def handleUnionResults_def aborted_def ev)
  then have 3: "snd (handleSubmit exampleLib (formWith (anaPop\<lparr>email := '' ''\<rparr>))) = None"
    by (simp add: handleSubmit_def safeParse_def formWith_def)
  have 4: "\<not> fst (validateField exampleLib Website '' '' (formWith anaPop))"
    by (simp add: validateField_def Let_def shape_def handleUnionResults_def aborted_def
        exampleLib_def exampleNewURL_def trim_def isWhiteSpace_def)
  have "objectIssues exampleLib (anaPop\<lparr>website := '' ''\<rparr>) =
      [(Website, ''validation.websiteInvalid'')]"
    by (simp add: objectIssues_def shape_def handleUnionResults_def aborted_def ev)
  then have 5: "snd (handleSubmit exampleLib (formWith (anaPop\<lparr>website := '' ''\<rparr>))) = None"
    by (simp add: handleSubmit_def safeParse_def formWith_def)
  from 1 2 3 4 5 show ?thesis by blast
qed

text \<open>
  Claim C4. For every invalid record, \<^verbatim>\<open>handleSubmit\<close> replaces the error map by the map
  that holds, for every field that fails its validation and for no other field, the message
  key of that field; it issues no encode request (so nothing is serialised) and changes
  nothing else: record, artifact, error key and flag are as before, and so are the requests
  in flight when the form is submitted. For a record with an empty
  first name and a phone number whose email and website are valid (empty, in the example of
  the specification), the map has the one entry \<^verbatim>\<open>validation.firstNameRequired\<close> for the
  first name.
\<close>

theorem handleSubmit_invalid_record:
  assumes "isl (safeParse G (formData st))"
  shows "handleSubmit G st =
           (st\<lparr>errors := (\<lambda>f. fieldRule G f (getField f (formData st)))\<rparr>, None) \<and>
         dom (errors (fst (handleSubmit G st))) =
           {f. \<not> fst (validateField G f (getField f (formData st)) st)} \<and>
         dom (errors (fst (handleSubmit G st))) \<noteq> {} \<and>
         inflight (fire G Submit \<lparr>form = st, inflight = q\<rparr>) = q \<and>
         (trim (firstName (formData st)) = [] \<and> trim (phone (formData st)) \<noteq> [] \<and>
          (email (formData st) = [] \<or> emailPattern G (email (formData st))) \<and>
          (website (formData st) = [] \<or> newURL G (trim (website (formData st)))) \<longrightarrow>
            errors (fst (handleSubmit G st)) = [FirstName \<mapsto> ''validation.firstNameRequired''])"
proof -
  let ?d = "formData st"
  have 1: "handleSubmit G st = (st\<lparr>errors := (\<lambda>f. fieldRule G f (getField f ?d))\<rparr>, None)"
    using assms by (rule handleSubmit_invalid)
  have 2: "dom (errors (fst (handleSubmit G st))) =
           {f. \<not> fst (validateField G f (getField f ?d) st)}"
    by (auto simp: 1 validateField_eq)
  have "\<not> list_all (\<lambda>k. fieldRule G k (getField k ?d) = None) fieldKeys"
    using assms by (simp add: safeParse_isl)
  then obtain k where "fieldRule G k (getField k ?d) \<noteq> None"
    by (auto simp: list_all_iff)
  then have "k \<in> dom (errors (fst (handleSubmit G st)))"
    by (simp add: 1 domIff)
  then have 3: "dom (errors (fst (handleSubmit G st))) \<noteq> {}"
    by blast
  have 4: "errors (fst (handleSubmit G st)) = [FirstName \<mapsto> ''validation.firstNameRequired'']"
    if "trim (firstName ?d) = []" "trim (phone ?d) \<noteq> []"
      "email ?d = [] \<or> emailPattern G (email ?d)"
      "website ?d = [] \<or> newURL G (trim (website ?d))"
  proof (rule ext)
    fix f
    show "errors (fst (handleSubmit G st)) f = [FirstName \<mapsto> ''validation.firstNameRequired''] f"
      using that by (cases f) (simp_all add: 1 fieldRule_def)
  qed
  have 5: "inflight (fire G Submit \<lparr>form = st, inflight = q\<rparr>) = q"
    by (simp add: 1)
  from 1 2 3 4 5 show ?thesis by blast
qed

theorem handleSubmit_invalid_record_witness:
  "snd (handleSubmit exampleLib
          (formWith (initialFormState\<lparr>firstName := ''  '', email := ''x'', phone := ''1''\<rparr>))) = None \<and>
   errors (fst (handleSubmit exampleLib
          (formWith (initialFormState\<lparr>firstName := ''  '', email := ''x'', phone := ''1''\<rparr>)))) FirstName =
     Some ''validation.firstNameRequired'' \<and>
   errors (fst (handleSubmit exampleLib
          (formWith (initialFormState\<lparr>firstName := ''  '', email := ''x'', phone := ''1''\<rparr>)))) Email =
     Some ''validation.emailInvalid'' \<and>
   errors (fst (handleSubmit exampleLib
          (formWith (initialFormState\<lparr>firstName := ''  '', email := ''x'', phone := ''1''\<rparr>)))) Phone =
     None \<and>
   errors (fst (handleSubmit exampleLib (formWith noName))) =
     [FirstName \<mapsto> ''validation.firstNameRequired'']"
proof -
  let ?st = "formWith (initialFormState\<lparr>firstName := ''  '', email := ''x'', phone := ''1''\<rparr>)"
  have z: "\<not> zodEmailPattern ''x''" by (simp add: zodEmailPattern_def)
  have h1: "isl (safeParse exampleLib (formData ?st))"
    using z
    by (simp add: safeParse_def objectIssues_def shape_def handleUnionResults_def aborted_def ev)
  have h2: "isl (safeParse exampleLib (formData (formWith noName)))"
    by (simp add: safeParse_def objectIssues_def shape_def handleUnionResults_def aborted_def ev)
  note t1 = handleSubmit_invalid_record [OF h1]
  note t2 = handleSubmit_invalid_record [OF h2]
  from t1 have eq: "handleSubmit exampleLib ?st =
      (?st\<lparr>errors := (\<lambda>f. fieldRule exampleLib f (getField f (formData ?st)))\<rparr>, None)"
    by blast
  have a: "snd (handleSubmit exampleLib ?st) = None"
    unfolding eq by simp
  have b: "errors (fst (handleSubmit exampleLib ?st)) FirstName =
      Some ''validation.firstNameRequired''"
    unfolding eq by (simp add: fieldRule_def ev)
  have c: "errors (fst (handleSubmit exampleLib ?st)) Email = Some ''validation.emailInvalid''"
    unfolding eq using z by (simp add: fieldRule_def ev)
  have d: "errors (fst (handleSubmit exampleLib ?st)) Phone = None"
    unfolding eq by (simp add: fieldRule_def ev)
  have "trim (firstName (formData (formWith noName))) = [] \<and>
        trim (phone (formData (formWith noName))) \<noteq> [] \<and>
        (email (formData (formWith noName)) = [] \<or>
         emailPattern exampleLib (email (formData (formWith noName)))) \<and>
        (website (formData (formWith noName)) = [] \<or>
         newURL exampleLib (trim (website (formData (formWith noName)))))"
    by (simp add: ev)
  with t2 have e: "errors (fst (handleSubmit exampleLib (formWith noName))) =
      [FirstName \<mapsto> ''validation.firstNameRequired'']"
    by blast
  from a b c d e show ?thesis by blast
qed

text \<open>
  Claim C10. \<^verbatim>\<open>validateField\<close> changes at most the entry of its field in the error map:
  the entry of every other field stays, the entry of the field is removed when the value
  passes and is the message key of the field's rule when it fails, and no other part of the
  state changes.
\<close>

theorem validateField_frame:
  "(g \<noteq> f \<longrightarrow> errors (snd (validateField G f v st)) g = errors st g) \<and>
   (fst (validateField G f v st) \<longrightarrow> errors (snd (validateField G f v st)) f = None) \<and>
   (\<not> fst (validateField G f v st) \<longrightarrow>
      fieldRule G f v \<noteq> None \<and> errors (snd (validateField G f v st)) f = fieldRule G f v) \<and>
   snd (validateField G f v st) = st\<lparr>errors := errors (snd (validateField G f v st))\<rparr> \<and>
   handleBlur G f v st = snd (validateField G f v st)"
  by (simp add: validateField_eq handleBlur_def)

theorem validateField_frame_witness:
  "errors (snd (validateField exampleLib FirstName []
             ((formWith anaPop)\<lparr>errors := [Email \<mapsto> ''validation.emailInvalid'']\<rparr>))) Email =
     Some ''validation.emailInvalid'' \<and>
   errors (snd (validateField exampleLib FirstName []
             ((formWith anaPop)\<lparr>errors := [Email \<mapsto> ''validation.emailInvalid'']\<rparr>))) FirstName =
     Some ''validation.firstNameRequired'' \<and>
   errors (snd (validateField exampleLib Email []
             ((formWith anaPop)\<lparr>errors := [Email \<mapsto> ''validation.emailInvalid'']\<rparr>))) Email = None"
  using
    validateField_frame [of Email FirstName exampleLib "[]"
      "(formWith anaPop)\<lparr>errors := [Email \<mapsto> ''validation.emailInvalid'']\<rparr>"]
    validateField_frame [of Email Email exampleLib "[]"
      "(formWith anaPop)\<lparr>errors := [Email \<mapsto> ''validation.emailInvalid'']\<rparr>"]
  by (simp add: validateField_def Let_def shape_def handleUnionResults_def aborted_def
      fieldRule_def ev)

section \<open>Properties of the submission\<close>


lemma parsedData_plain:
  "f \<noteq> Email \<Longrightarrow> f \<noteq> Website \<Longrightarrow> getField f (parsedData G d) = trim (getField f d)"
  by (cases f) (simp_all add: parsedData_def run_shape_plain_value)

lemma parsedData_email: "email (parsedData G d) = email d"
  by (simp add: parsedData_def shape_def handleUnionResults_def aborted_def)

lemma parsedData_website:
  "website (parsedData G d) =
     (if newURL G (trim (website d)) then trim (website d) else website d)"
  by (simp add: parsedData_def shape_def handleUnionResults_def aborted_def Let_def)

lemma fire_Submit_valid:
  "\<not> isl (safeParse G (formData (form sys))) \<Longrightarrow> \<not> isGenerating (form sys) \<Longrightarrow>
   fire G Submit sys =
     \<lparr>form = (form sys)\<lparr>errors := Map.empty, qrError := None, isGenerating := True\<rparr>,
      inflight = inflight sys @
        [\<lparr>vcardPayload = buildVCard (parsedData G (formData (form sys))),
          errorCorrectionLevel = ''M'', margin = 1, scale = 6\<rparr>]\<rparr>"
  by (simp add: handleSubmit_valid)

lemma fire_Submit_invalid:
  "isl (safeParse G (formData (form sys))) \<Longrightarrow> \<not> isGenerating (form sys) \<Longrightarrow>
   fire G Submit sys =
     sys\<lparr>form := (form sys)\<lparr>errors := (\<lambda>k. fieldRule G k (getField k (formData (form sys))))\<rparr>\<rparr>"
  by (simp add: handleSubmit_invalid)

lemma fire_single_flight:
  assumes "isGenerating (form sys) = (inflight sys \<noteq> [])" and "length (inflight sys) \<le> 1"
  shows "isGenerating (form (fire G e sys)) = (inflight (fire G e sys) \<noteq> []) \<and>
         length (inflight (fire G e sys)) \<le> 1"
proof (cases e)
  case (Change f v)
  then show ?thesis using assms by (simp add: handleChange_def)
next
  case (Blur f v)
  then show ?thesis using assms by (simp add: handleBlur_def validateField_eq)
next
  case Submit
  show ?thesis
  proof (cases "isGenerating (form sys)")
    case True
    then show ?thesis using assms Submit by simp
  next
    case False
    then have q: "inflight sys = []" using assms by simp
    show ?thesis
    proof (cases "isl (safeParse G (formData (form sys)))")
      case True
      show ?thesis
        unfolding Submit fire_Submit_invalid [OF True False] using False q by simp
    next
      case v: False
      show ?thesis
        unfolding Submit fire_Submit_valid [OF v False] using q by simp
    qed
  qed
next
  case Reset
  then show ?thesis using assms by (simp add: resetFormData_def)
next
  case CloseModal
  then show ?thesis using assms by (simp add: closeQrModal_def)
next
  case Download
  then show ?thesis using assms by simp
next
  case (Settle i out)
  show ?thesis
  proof (cases "i < length (inflight sys)")
    case True
    then have "i = 0" and "length (inflight sys) = 1" using assms by auto
    then show ?thesis unfolding Settle
      by (cases out) (simp_all add: handleSubmit_fulfilled_def handleSubmit_rejected_def)
  next
    case False
    then show ?thesis using assms Settle by simp
  qed
qed

lemma runEvents_snoc: "runEvents G (evs @ [e]) = fire G e (runEvents G evs)"
  by (simp add: runEvents_def)

lemma runEvents_single_flight:
  "isGenerating (form (runEvents G evs)) = (inflight (runEvents G evs) \<noteq> []) \<and>
   length (inflight (runEvents G evs)) \<le> 1"
proof (induction evs rule: rev_induct)
  case Nil
  then show ?case by (simp add: runEvents_def initialSystem_def initialVCardForm_def)
next
  case (snoc e evs)
  then show ?case unfolding runEvents_snoc by (intro fire_single_flight) simp_all
qed

lemmas ev2 = runEvents_def typeAnaPop_def generating_def initialSystem_def handleChange_def
  handleSubmit_def safeParse_def objectIssues_def parsedData_def shape_def
  handleUnionResults_def aborted_def handleSubmit_fulfilled_def handleSubmit_rejected_def
  resetFormData_def sampleArtifact_def

lemma generating_eq:
  "generating =
     \<lparr>form = (formWith anaPop)\<lparr>isGenerating := True\<rparr>,
      inflight = [\<lparr>vcardPayload = buildVCard anaPop, errorCorrectionLevel = ''M'',
                   margin = 1, scale = 6\<rparr>]\<rparr>"
  by (simp add: ev2 ev)

text \<open>
  Claim C1, as amended. While an encode request is in flight the submit button is disabled, so
  that a submission of the form has no effect: no request is issued and no part of the state
  changes. In every state the component reaches through its events at most one encode request
  is outstanding, and the flag is set exactly while one is. \<^verbatim>\<open>handleSubmit\<close> itself has no
  such guard.
\<close>

theorem submit_single_flight:
  "(isGenerating (form sys) \<longrightarrow> fire G Submit sys = sys) \<and>
   length (inflight (runEvents G evs)) \<le> 1 \<and>
   isGenerating (form (runEvents G evs)) = (inflight (runEvents G evs) \<noteq> [])"
  using runEvents_single_flight [of G evs] by simp

theorem submit_single_flight_witness:
  "isGenerating (form generating) \<and> fire exampleLib Submit generating = generating \<and>
   length (inflight (runEvents exampleLib (typeAnaPop @ [Submit, Submit]))) \<le> 1"
proof -
  have h: "isGenerating (form generating)" by (simp add: generating_eq)
  from submit_single_flight [of generating exampleLib "typeAnaPop @ [Submit, Submit]"] h
  show ?thesis by blast
qed

text \<open>
  Claim C1 as stated fails for \<^verbatim>\<open>handleSubmit\<close>: called in a state where a request is in
  flight, it issues a second request for a valid record and replaces the error map for an
  invalid one.
\<close>

theorem handleSubmit_while_generating:
  "isGenerating (form generating) \<and> length (inflight generating) = 1 \<and>
   snd (handleSubmit exampleLib (form generating)) =
     Some \<lparr>vcardPayload = buildVCard anaPop, errorCorrectionLevel = ''M'', margin = 1, scale = 6\<rparr> \<and>
   errors (handleChange FirstName [] (form generating)) FirstName = None \<and>
   errors (fst (handleSubmit exampleLib (handleChange FirstName [] (form generating)))) FirstName =
     Some ''validation.firstNameRequired''"
proof -
  have 1: "snd (handleSubmit exampleLib (form generating)) =
     Some \<lparr>vcardPayload = buildVCard anaPop, errorCorrectionLevel = ''M'', margin = 1, scale = 6\<rparr>"
    unfolding generating_eq by (simp add: ev2 ev)
  have 2: "errors (fst (handleSubmit exampleLib (handleChange FirstName [] (form generating)))) FirstName =
     Some ''validation.firstNameRequired''"
    unfolding generating_eq
    by (simp add: ev2 ev validationErrors_def fieldErrors_def)
  show ?thesis using 1 2 by (simp add: generating_eq handleChange_def ev)
qed

text \<open>
  Claim C3, as amended. For every valid record, \<^verbatim>\<open>handleSubmit\<close> clears the error map and the
  generation-error key, sets the flag and keeps the artifact it holds; it then issues exactly
  one encode request, whose payload is the serialisation of the validated record (the
  plain-text fields and the website trimmed, the email as entered) and
  whose options are the error-correction level \<^verbatim>\<open>M\<close>, margin 1 and scale 6.
\<close>

theorem handleSubmit_valid_record:
  assumes "\<not> isl (safeParse G (formData st))"
  shows "handleSubmit G st =
           (st\<lparr>errors := Map.empty, qrError := None, isGenerating := True\<rparr>,
            Some \<lparr>vcardPayload = buildVCard (parsedData G (formData st)),
                  errorCorrectionLevel = ''M'', margin = 1, scale = 6\<rparr>) \<and>
         qrCodeData (fst (handleSubmit G st)) = qrCodeData st \<and>
         (\<forall>f. f \<noteq> Email \<and> f \<noteq> Website \<longrightarrow>
            getField f (parsedData G (formData st)) = trim (getField f (formData st))) \<and>
         email (parsedData G (formData st)) = email (formData st) \<and>
         website (parsedData G (formData st)) = trim (website (formData st)) \<and>
         (\<not> isGenerating st \<longrightarrow>
            inflight (fire G Submit \<lparr>form = st, inflight = q\<rparr>) =
              q @ [\<lparr>vcardPayload = buildVCard (parsedData G (formData st)),
                    errorCorrectionLevel = ''M'', margin = 1, scale = 6\<rparr>])"
proof -
  note eq = handleSubmit_valid [OF assms]
  have 1: "qrCodeData (fst (handleSubmit G st)) = qrCodeData st"
    unfolding eq by simp
  have 2: "\<not> isGenerating st \<longrightarrow>
            inflight (fire G Submit \<lparr>form = st, inflight = q\<rparr>) =
              q @ [\<lparr>vcardPayload = buildVCard (parsedData G (formData st)),
                    errorCorrectionLevel = ''M'', margin = 1, scale = 6\<rparr>]"
    by (simp add: eq)
  have "fieldRule G Website (website (formData st)) = None"
    using assms safeParse_isl [of G "formData st"]
    by (simp add: fieldKeys_def)
  then have 3: "website (parsedData G (formData st)) = trim (website (formData st))"
    by (auto simp: parsedData_website fieldRule_def trim_Nil split: if_splits)
  from eq 1 2 3 show ?thesis
    by (simp add: parsedData_plain parsedData_email)
qed

lemma parsedData_anaPop: "parsedData exampleLib anaPop = anaPop"
  by (simp add: ev2 ev)

lemma safeParse_anaPop: "\<not> isl (safeParse exampleLib anaPop)"
  by (simp add: ev2 ev)

theorem handleSubmit_valid_record_witness:
  "handleSubmit exampleLib
     ((formWith anaPop)\<lparr>errors := [Email \<mapsto> ''validation.emailInvalid''],
                        qrError := Some generationFailed\<rparr>) =
     ((formWith anaPop)\<lparr>isGenerating := True\<rparr>,
      Some \<lparr>vcardPayload = buildVCard anaPop, errorCorrectionLevel = ''M'',
            margin = 1, scale = 6\<rparr>)"
proof -
  let ?st = "(formWith anaPop)\<lparr>errors := [Email \<mapsto> ''validation.emailInvalid''],
                               qrError := Some generationFailed\<rparr>"
  have h: "\<not> isl (safeParse exampleLib (formData ?st))"
    using safeParse_anaPop by (simp add: formWith_def)
  from handleSubmit_valid_record [OF h]
  have "handleSubmit exampleLib ?st =
           (?st\<lparr>errors := Map.empty, qrError := None, isGenerating := True\<rparr>,
            Some \<lparr>vcardPayload = buildVCard (parsedData exampleLib (formData ?st)),
                  errorCorrectionLevel = ''M'', margin = 1, scale = 6\<rparr>)"
    by blast
  then show ?thesis
    by (simp add: formWith_def initialVCardForm_def parsedData_anaPop)
qed

text \<open>
  Claim C3 as stated fails: an artifact held before the submission is still held after it,
  also in a state reached by the events of the form. The payload is the serialisation of the
  validated record, which for a first name with a leading space is not the serialisation of
  the record as it was submitted.
\<close>

theorem handleSubmit_keeps_artifact:
  "snd (handleSubmit exampleLib ((formWith anaPop)\<lparr>qrCodeData := Some sampleArtifact\<rparr>)) =
     Some \<lparr>vcardPayload = buildVCard anaPop, errorCorrectionLevel = ''M'', margin = 1, scale = 6\<rparr> \<and>
   qrCodeData (fst (handleSubmit exampleLib ((formWith anaPop)\<lparr>qrCodeData := Some sampleArtifact\<rparr>))) =
     Some sampleArtifact \<and>
   qrCodeData
     (form (runEvents exampleLib
              (typeAnaPop @ [Submit, Settle 0 (Fulfilled sampleArtifact), Submit]))) =
     Some sampleArtifact \<and>
   length (inflight (runEvents exampleLib
              (typeAnaPop @ [Submit, Settle 0 (Fulfilled sampleArtifact), Submit]))) = 1 \<and>
   map_option vcardPayload (snd (handleSubmit exampleLib (formWith (anaPop\<lparr>firstName := '' Ana''\<rparr>)))) =
     Some (buildVCard anaPop) \<and>
   buildVCard (anaPop\<lparr>firstName := '' Ana''\<rparr>) \<noteq> buildVCard anaPop"
proof -
  have 1: "handleSubmit exampleLib ((formWith anaPop)\<lparr>qrCodeData := Some sampleArtifact\<rparr>) =
     ((formWith anaPop)\<lparr>qrCodeData := Some sampleArtifact, isGenerating := True\<rparr>,
      Some \<lparr>vcardPayload = buildVCard anaPop, errorCorrectionLevel = ''M'', margin = 1, scale = 6\<rparr>)"
    using safeParse_anaPop
      handleSubmit_valid [of exampleLib "(formWith anaPop)\<lparr>qrCodeData := Some sampleArtifact\<rparr>"]
    by (simp add: parsedData_anaPop formWith_def initialVCardForm_def)
  have g: "runEvents exampleLib (typeAnaPop @ [Submit, Settle 0 (Fulfilled sampleArtifact), Submit]) =
      fire exampleLib Submit (fire exampleLib (Settle 0 (Fulfilled sampleArtifact)) generating)"
    by (simp add: generating_def runEvents_def)
  have 2: "fire exampleLib (Settle 0 (Fulfilled sampleArtifact)) generating =
     \<lparr>form = (formWith anaPop)\<lparr>qrCodeData := Some sampleArtifact\<rparr>, inflight = []\<rparr>"
    by (simp add: generating_eq handleSubmit_fulfilled_def formWith_def initialVCardForm_def)
  have 3: "fire exampleLib Submit
      \<lparr>form = (formWith anaPop)\<lparr>qrCodeData := Some sampleArtifact\<rparr>, inflight = []\<rparr> =
     \<lparr>form = (formWith anaPop)\<lparr>qrCodeData := Some sampleArtifact, isGenerating := True\<rparr>,
      inflight = [\<lparr>vcardPayload = buildVCard anaPop, errorCorrectionLevel = ''M'',
                   margin = 1, scale = 6\<rparr>]\<rparr>"
    by (simp add: 1) (simp add: formWith_def initialVCardForm_def)
  have 4: "map_option vcardPayload
      (snd (handleSubmit exampleLib (formWith (anaPop\<lparr>firstName := '' Ana''\<rparr>)))) =
     Some (buildVCard anaPop)"
    by (simp add: ev2 ev)
  have 5: "buildVCard (anaPop\<lparr>firstName := '' Ana''\<rparr>) \<noteq> buildVCard anaPop"
    by (simp add: buildVCard_def buildVCard_lines_def displayName_def addressSegments_def ev)
  show ?thesis unfolding g 2 3 using 4 5 by (simp add: 1)
qed

text \<open>
  Claim C8. For every valid record submitted while no request is in flight, when the encode
  request fails the state goes from generating to failed: the flag is cleared, the error key
  is \<^verbatim>\<open>generationFailed\<close>, so that the message shown is the one of the key
  \<^verbatim>\<open>messages.errors.generationFailed\<close>; the artifact is the one held before the submission,
  and no request is left or issued again.
\<close>

theorem encode_rejected:
  assumes "\<not> isl (safeParse G (formData st))" and "\<not> isGenerating st"
  shows "let sys1 = fire G Submit \<lparr>form = st, inflight = q\<rparr>;
             sys2 = fire G (Settle (length q) Rejected) sys1
         in isGenerating (form sys1) \<and> length (inflight sys1) = Suc (length q) \<and>
            \<not> isGenerating (form sys2) \<and>
            qrError (form sys2) = Some generationFailed \<and>
            helperMessage translate helper (form sys2) =
              translate ''messages.errors.generationFailed'' \<and>
            qrCodeData (form sys1) = qrCodeData st \<and>
            qrCodeData (form sys2) = qrCodeData st \<and>
            inflight sys2 = q \<and>
            form sys2 = handleSubmit_rejected (fst (handleSubmit G st))"
proof -
  have 1: "fire G Submit \<lparr>form = st, inflight = q\<rparr> =
     \<lparr>form = st\<lparr>errors := Map.empty, qrError := None, isGenerating := True\<rparr>,
      inflight = q @
        [\<lparr>vcardPayload = buildVCard (parsedData G (formData st)),
          errorCorrectionLevel = ''M'', margin = 1, scale = 6\<rparr>]\<rparr>"
    using assms fire_Submit_valid [of G "\<lparr>form = st, inflight = q\<rparr>"] by simp
  show ?thesis
    unfolding Let_def 1
    by (simp add: handleSubmit_rejected_def helperMessage_def handleSubmit_valid [OF assms(1)])
qed

theorem encode_rejected_witness:
  "qrError (form (fire exampleLib (Settle 0 Rejected)
      (fire exampleLib Submit
         \<lparr>form = (formWith anaPop)\<lparr>qrCodeData := Some sampleArtifact\<rparr>, inflight = []\<rparr>))) =
     Some generationFailed \<and>
   qrCodeData (form (fire exampleLib (Settle 0 Rejected)
      (fire exampleLib Submit
         \<lparr>form = (formWith anaPop)\<lparr>qrCodeData := Some sampleArtifact\<rparr>, inflight = []\<rparr>))) =
     Some sampleArtifact \<and>
   inflight (fire exampleLib (Settle 0 Rejected)
      (fire exampleLib Submit
         \<lparr>form = (formWith anaPop)\<lparr>qrCodeData := Some sampleArtifact\<rparr>, inflight = []\<rparr>)) = [] \<and>
   helperMessage id [] (form (fire exampleLib (Settle 0 Rejected)
      (fire exampleLib Submit
         \<lparr>form = (formWith anaPop)\<lparr>qrCodeData := Some sampleArtifact\<rparr>, inflight = []\<rparr>))) =
     ''messages.errors.generationFailed''"
proof -
  let ?st = "(formWith anaPop)\<lparr>qrCodeData := Some sampleArtifact\<rparr>"
  have h1: "\<not> isl (safeParse exampleLib (formData ?st))"
    using safeParse_anaPop by (simp add: formWith_def)
  have h2: "\<not> isGenerating ?st"
    by (simp add: formWith_def initialVCardForm_def)
  let ?sys2 = "fire exampleLib (Settle 0 Rejected)
      (fire exampleLib Submit \<lparr>form = ?st, inflight = []\<rparr>)"
  note t = encode_rejected [OF h1 h2, of "[]" id "[]", unfolded Let_def list.size]
  from t have a: "qrError (form ?sys2) = Some generationFailed" by blast
  from t have "qrCodeData (form ?sys2) = qrCodeData ?st" by blast
  then have b: "qrCodeData (form ?sys2) = Some sampleArtifact" by simp
  from t have c: "inflight ?sys2 = []" by blast
  from t have "helperMessage id [] (form ?sys2) = id ''messages.errors.generationFailed''"
    by blast
  then have d: "helperMessage id [] (form ?sys2) = ''messages.errors.generationFailed''"
    by (simp only: id_apply)
  show ?thesis by (intro conjI a b c d)
qed

text \<open>
  Claim C9, as amended. The flag is cleared whenever an encode request settles, with success
  or with failure. \<^verbatim>\<open>resetFormData\<close> leaves the flag as it is. In every state the component
  reaches through its events, a set flag means that exactly one request is in flight, and the
  settling of that request clears the flag.
\<close>

theorem isGenerating_release:
  "\<not> isGenerating (handleSubmit_fulfilled dataUrl st) \<and>
   \<not> isGenerating (handleSubmit_rejected st) \<and>
   (i < length (inflight sys) \<longrightarrow> \<not> isGenerating (form (fire G (Settle i out) sys))) \<and>
   isGenerating (resetFormData st) = isGenerating st \<and>
   isGenerating (form (fire G Reset sys)) = isGenerating (form sys) \<and>
   (isGenerating (form (runEvents G evs)) \<longrightarrow>
      length (inflight (runEvents G evs)) = 1 \<and>
      \<not> isGenerating (form (runEvents G (evs @ [Settle 0 out]))))"
proof -
  have 1: "i < length (inflight sys) \<longrightarrow> \<not> isGenerating (form (fire G (Settle i out) sys))"
    by (cases out) (simp_all add: handleSubmit_fulfilled_def handleSubmit_rejected_def)
  have 2: "length (inflight (runEvents G evs)) = 1 \<and>
           \<not> isGenerating (form (runEvents G (evs @ [Settle 0 out])))"
    if g: "isGenerating (form (runEvents G evs))"
  proof -
    from runEvents_single_flight [of G evs] g
    have l: "length (inflight (runEvents G evs)) = 1"
      by (cases "inflight (runEvents G evs)") auto
    then show ?thesis
      unfolding runEvents_snoc
      by (cases out) (simp_all add: handleSubmit_fulfilled_def handleSubmit_rejected_def)
  qed
  from 1 2 show ?thesis
    by (simp add: handleSubmit_fulfilled_def handleSubmit_rejected_def resetFormData_def)
qed

theorem isGenerating_release_witness:
  "isGenerating (form generating) \<and>
   \<not> isGenerating (form (fire exampleLib (Settle 0 Rejected) generating)) \<and>
   \<not> isGenerating (form (runEvents exampleLib
        (typeAnaPop @ [Submit] @ [Settle 0 (Fulfilled sampleArtifact)])))"
proof -
  have g: "isGenerating (form generating)" by (simp add: generating_eq)
  have l: "0 < length (inflight generating)" by (simp add: generating_eq)
  have g': "isGenerating (form (runEvents exampleLib (typeAnaPop @ [Submit])))"
    using g by (simp add: generating_def)
  from isGenerating_release [of sampleArtifact "form generating" 0 generating exampleLib Rejected
      "typeAnaPop @ [Submit]"] g l
  have a: "\<not> isGenerating (form (fire exampleLib (Settle 0 Rejected) generating))"
    by blast
  from isGenerating_release [of sampleArtifact "form generating" 0 generating exampleLib
      "Fulfilled sampleArtifact" "typeAnaPop @ [Submit]"] g'
  have b: "\<not> isGenerating (form (runEvents exampleLib
        ((typeAnaPop @ [Submit]) @ [Settle 0 (Fulfilled sampleArtifact)])))"
    by blast
  from g a b show ?thesis by simp
qed

text \<open>
  Claim C9 as stated fails: after a reset while a request is in flight, the flag is still set
  (and the request still in flight).
\<close>

theorem reset_keeps_isGenerating:
  "isGenerating (form (fire exampleLib Reset generating)) \<and>
   isGenerating (form (runEvents exampleLib (typeAnaPop @ [Submit, Reset]))) \<and>
   inflight (runEvents exampleLib (typeAnaPop @ [Submit, Reset])) = inflight generating \<and>
   length (inflight generating) = 1"
proof -
  have "runEvents exampleLib (typeAnaPop @ [Submit, Reset]) = fire exampleLib Reset generating"
    by (simp add: generating_def runEvents_def)
  then show ?thesis
    by (simp add: generating_eq resetFormData_def)
qed

end
